theory Spec2Isabelle
  imports Complex_Main
begin

section \<open>Python strings\<close>

text \<open>
  A Python \<open>str\<close> is modelled as a \<open>string\<close> whose characters are the code points
  below 256. On these code points the character classes of \<open>re\<close> and of the \<open>str\<close>
  methods are the ones listed here.
\<close>

definition among :: "string \<Rightarrow> char \<Rightarrow> bool" where
  \<comment> \<open>a character class given by its members\<close>
  "among cs c \<longleftrightarrow> c \<in> set cs"

definition is_digit :: "char \<Rightarrow> bool" where
  \<comment> \<open>\<open>\d\<close>\<close>
  "is_digit = among ''0123456789''"

definition whitespace :: string where
  \<comment> \<open>tab, line feed, vertical tab, form feed, carriage return, the four separators
      \<open>0x1C\<close> to \<open>0x1F\<close>, blank, next line, no-break space\<close>
  "whitespace = [CHR 0x09, CHR 0x0A, CHR 0x0B, CHR 0x0C, CHR 0x0D, CHR 0x1C, CHR 0x1D,
                 CHR 0x1E, CHR 0x1F, CHR 0x20, CHR 0x85, CHR 0xA0]"

definition is_space :: "char \<Rightarrow> bool" where
  \<comment> \<open>\<open>\s\<close> and \<open>str.isspace\<close>\<close>
  "is_space = among whitespace"

definition ascii_lowercase :: string where
  "ascii_lowercase = ''abcdefghijklmnopqrstuvwxyz''"

definition ascii_uppercase :: string where
  "ascii_uppercase = ''ABCDEFGHIJKLMNOPQRSTUVWXYZ''"

definition is_letter :: "char \<Rightarrow> bool" where
  \<comment> \<open>\<open>[a-z]\<close> under \<open>re.IGNORECASE\<close>\<close>
  "is_letter = among (ascii_lowercase @ ascii_uppercase)"

definition not_newline :: "char \<Rightarrow> bool" where
  \<comment> \<open>\<open>[^\n\r]\<close>\<close>
  "not_newline c \<longleftrightarrow> c \<noteq> CHR 0x0A \<and> c \<noteq> CHR 0x0D"

definition latin1_uppercase :: string where
  \<comment> \<open>the capital letters \<open>0xC0\<close> to \<open>0xDE\<close>, the multiplication sign \<open>0xD7\<close> left out\<close>
  "latin1_uppercase =
     [CHR 0xC0, CHR 0xC1, CHR 0xC2, CHR 0xC3, CHR 0xC4, CHR 0xC5, CHR 0xC6, CHR 0xC7,
      CHR 0xC8, CHR 0xC9, CHR 0xCA, CHR 0xCB, CHR 0xCC, CHR 0xCD, CHR 0xCE, CHR 0xCF,
      CHR 0xD0, CHR 0xD1, CHR 0xD2, CHR 0xD3, CHR 0xD4, CHR 0xD5, CHR 0xD6,
      CHR 0xD8, CHR 0xD9, CHR 0xDA, CHR 0xDB, CHR 0xDC, CHR 0xDD, CHR 0xDE]"

definition latin1_lowercase :: string where
  "latin1_lowercase =
     [CHR 0xE0, CHR 0xE1, CHR 0xE2, CHR 0xE3, CHR 0xE4, CHR 0xE5, CHR 0xE6, CHR 0xE7,
      CHR 0xE8, CHR 0xE9, CHR 0xEA, CHR 0xEB, CHR 0xEC, CHR 0xED, CHR 0xEE, CHR 0xEF,
      CHR 0xF0, CHR 0xF1, CHR 0xF2, CHR 0xF3, CHR 0xF4, CHR 0xF5, CHR 0xF6,
      CHR 0xF8, CHR 0xF9, CHR 0xFA, CHR 0xFB, CHR 0xFC, CHR 0xFD, CHR 0xFE]"

fun translate :: "string \<Rightarrow> string \<Rightarrow> char \<Rightarrow> char" where
  \<comment> \<open>the character at the place of \<open>c\<close> in the second alphabet, \<open>c\<close> itself when the first
      alphabet does not have it\<close>
  "translate (a # as) (b # bs) c = (if c = a then b else translate as bs c)"
| "translate _ _ c = c"

definition lower_char :: "char \<Rightarrow> char" where
  "lower_char = translate (ascii_uppercase @ latin1_uppercase) (ascii_lowercase @ latin1_lowercase)"

definition upper_ascii :: "char \<Rightarrow> char" where
  "upper_ascii = translate ascii_lowercase ascii_uppercase"

definition lower :: "string \<Rightarrow> string" where
  \<comment> \<open>\<open>str.lower\<close>\<close>
  "lower s = map lower_char s"

definition strip :: "string \<Rightarrow> string" where
  \<comment> \<open>\<open>str.strip\<close> with no argument\<close>
  "strip s = rev (dropWhile is_space (rev (dropWhile is_space s)))"

definition startswith :: "string \<Rightarrow> string \<Rightarrow> bool" where
  "startswith s p \<longleftrightarrow> take (length p) s = p"

definition digit_char :: "nat \<Rightarrow> char" where
  "digit_char n = ''0123456789'' ! n"

fun show_nat :: "nat \<Rightarrow> string" where
  "show_nat n = (if n < 10 then [digit_char n] else show_nat (n div 10) @ [digit_char (n mod 10)])"

declare show_nat.simps [simp del]

definition pad2 :: "nat \<Rightarrow> string" where
  \<comment> \<open>two digits, as \<open>%m\<close> and \<open>%d\<close> of \<open>strftime\<close> print them\<close>
  "pad2 n = (if n < 10 then CHR ''0'' # show_nat n else show_nat n)"

fun index_of :: "'a \<Rightarrow> 'a list \<Rightarrow> nat" where
  "index_of x [] = 0"
| "index_of x (y # ys) = (if x = y then 0 else Suc (index_of x ys))"

definition int_of_digits :: "string \<Rightarrow> nat" where
  \<comment> \<open>\<open>int\<close> on a text of digits, leading blanks ignored\<close>
  "int_of_digits s =
     foldl (\<lambda>a c. 10 * a + index_of c ''0123456789'') 0 (filter is_digit s)"

section \<open>The fragment of \<open>re\<close> the parser uses\<close>

text \<open>
  A backtracking matcher: \<open>rx_match r s\<close> lists, in the order in which \<open>re\<close> tries them,
  the ways \<open>r\<close> matches a prefix of \<open>s\<close>, each with the texts of its groups and the rest
  of \<open>s\<close>. All patterns of the program are used with \<open>re.IGNORECASE\<close>: a literal
  \<open>Lit l u\<close> holds its text in lower case and in upper case, and a character of the
  subject matches when it is either; \<open>lit\<close> builds it from the lower-case text.
  \<open>Rep P lo hi\<close> is the greedy repetition of a character class, between \<open>lo\<close> and \<open>hi\<close>
  times.
\<close>

datatype rx =
    Lit string string
  | Rep "char \<Rightarrow> bool" nat "nat option"
  | Alt "rx list"
  | Seq "rx list"
  | Grp rx

definition lit :: "string \<Rightarrow> rx" where
  "lit s = Lit s (map upper_ascii s)"

fun lit_match :: "string \<Rightarrow> string \<Rightarrow> string \<Rightarrow> string option" where
  \<comment> \<open>the rest of the subject behind the literal\<close>
  "lit_match [] us s = Some s"
| "lit_match (l # ls) [] s = None"
| "lit_match (l # ls) (u # us) [] = None"
| "lit_match (l # ls) (u # us) (c # cs) =
     (if c = l \<or> c = u then lit_match ls us cs else None)"

fun spans :: "(char \<Rightarrow> bool) \<Rightarrow> string \<Rightarrow> string list" where
  \<comment> \<open>the rests of the subject behind 0, 1, 2, ... characters of the class\<close>
  "spans P [] = [[]]"
| "spans P (c # cs) = (c # cs) # (if P c then spans P cs else [])"

fun before :: "string \<Rightarrow> string \<Rightarrow> string" where
  \<comment> \<open>\<open>before s rest\<close>: the text that \<open>s\<close> has in front of its suffix \<open>rest\<close>\<close>
  "before [] rest = []"
| "before (c # cs) rest = (if c # cs = rest then [] else c # before cs rest)"

fun rx_match :: "rx \<Rightarrow> string \<Rightarrow> (string list \<times> string) list" where
  "rx_match (Lit l u) s = (case lit_match l u s of Some rest \<Rightarrow> [([], rest)] | None \<Rightarrow> [])"
| "rx_match (Rep P lo hi) s =
     map (Pair [])
       (rev (drop lo (case hi of None \<Rightarrow> spans P s | Some h \<Rightarrow> take (Suc h) (spans P s))))"
| "rx_match (Alt rs) s = concat (map (\<lambda>r. rx_match r s) rs)"
| "rx_match (Seq []) s = [([], s)]"
| "rx_match (Seq (r # rs)) s =
     concat (map (\<lambda>(c1, s1). map (\<lambda>(c2, s2). (c1 @ c2, s2)) (rx_match (Seq rs) s1))
                 (rx_match r s))"
| "rx_match (Grp r) s = map (\<lambda>(c, rest). (before s rest # c, rest)) (rx_match r s)"

definition re_match :: "rx \<Rightarrow> string \<Rightarrow> (string list \<times> string) option" where
  \<comment> \<open>\<open>re.match\<close>: the first match at the start of the text\<close>
  "re_match r s = (case rx_match r s of [] \<Rightarrow> None | m # _ \<Rightarrow> Some m)"

fun re_search :: "rx \<Rightarrow> string \<Rightarrow> string list option" where
  \<comment> \<open>\<open>re.search\<close>: the groups of the leftmost match\<close>
  "re_search r [] = map_option fst (re_match r [])"
| "re_search r (c # cs) =
     (case re_match r (c # cs) of Some (g, _) \<Rightarrow> Some g | None \<Rightarrow> re_search r cs)"

fun re_findall :: "rx \<Rightarrow> string \<Rightarrow> string list" where
  \<comment> \<open>\<open>re.findall\<close> for a pattern with one group that never matches the empty text:
      the group of every match, left to right, each search starting where the last match
      ended\<close>
  "re_findall r [] = []"
| "re_findall r (c # cs) =
     (case re_match r (c # cs) of
        None \<Rightarrow> re_findall r cs
      | Some (g, rest) \<Rightarrow>
          (if length rest \<le> length cs then take 1 g @ re_findall r rest
           else re_findall r cs))"

section \<open>Dates: \<open>strptime\<close> and \<open>strftime\<close>\<close>

definition digits :: "nat \<Rightarrow> rx" where
  \<comment> \<open>\<open>\d{n}\<close>\<close>
  "digits n = Rep is_digit n (Some n)"

definition digits_1_2 :: rx where
  \<comment> \<open>\<open>\d{1,2}\<close>\<close>
  "digits_1_2 = Rep is_digit 1 (Some 2)"

definition one_of :: "string \<Rightarrow> rx" where
  \<comment> \<open>one character of a class\<close>
  "one_of cs = Rep (among cs) 1 (Some 1)"

definition spaces1 :: rx where
  \<comment> \<open>\<open>\s+\<close>, which \<open>strptime\<close> puts for a blank of the format\<close>
  "spaces1 = Rep is_space 1 None"

definition directive_m :: rx where
  \<comment> \<open>\<open>%m\<close>: \<open>(1[0-2]|0[1-9]|[1-9])\<close>\<close>
  "directive_m = Grp (Alt [Seq [lit ''1'', one_of ''012''],
                           Seq [lit ''0'', one_of ''123456789''],
                           one_of ''123456789''])"

definition directive_d :: rx where
  \<comment> \<open>\<open>%d\<close>: \<open>(3[0-1]|[1-2]\d|0[1-9]|[1-9]| [1-9])\<close>\<close>
  "directive_d = Grp (Alt [Seq [lit ''3'', one_of ''01''],
                           Seq [one_of ''12'', digits 1],
                           Seq [lit ''0'', one_of ''123456789''],
                           one_of ''123456789'',
                           Seq [lit '' '', one_of ''123456789'']])"

definition directive_Y :: rx where
  \<comment> \<open>\<open>%Y\<close>: \<open>(\d\d\d\d)\<close>\<close>
  "directive_Y = Grp (digits 4)"

definition month_names :: "string list" where
  "month_names = [''january'', ''february'', ''march'', ''april'', ''may'', ''june'', ''july'',
                  ''august'', ''september'', ''october'', ''november'', ''december'']"

definition directive_B :: rx where
  \<comment> \<open>\<open>%B\<close>: the full month names, longest first\<close>
  "directive_B = Grp (Alt (map lit [''september'', ''february'', ''november'', ''december'',
                    ''january'', ''october'', ''august'', ''march'', ''april'', ''june'',
                    ''july'', ''may'']))"

definition leap :: "nat \<Rightarrow> bool" where
  "leap y \<longleftrightarrow> y mod 4 = 0 \<and> (y mod 100 \<noteq> 0 \<or> y mod 400 = 0)"

definition days_in_month :: "nat \<Rightarrow> nat \<Rightarrow> nat" where
  "days_in_month y m =
     (if m = 2 then (if leap y then 29 else 28)
      else if m \<in> {4, 6, 9, 11} then 30 else 31)"

text \<open>A calendar date as \<open>(year, month, day)\<close>; \<open>None\<close> stands for the \<open>ValueError\<close>.\<close>

type_synonym date = "nat \<times> nat \<times> nat"

definition make_date :: "nat \<Rightarrow> nat \<Rightarrow> nat \<Rightarrow> date option" where
  \<comment> \<open>the year has to be at least \<open>MINYEAR\<close>, the day has to exist in the month\<close>
  "make_date y m d =
     (if 1 \<le> y \<and> y \<le> 9999 \<and> 1 \<le> m \<and> m \<le> 12 \<and> 1 \<le> d \<and> d \<le> days_in_month y m
      then Some (y, m, d) else None)"

definition strptime_mdY :: "string \<Rightarrow> string \<Rightarrow> date option" where
  \<comment> \<open>\<open>datetime.strptime(s, '%m/%d/%Y')\<close> and \<open>'%m-%d-%Y'\<close>, \<open>sep\<close> being the separator:
      the pattern of the format has to match, and to match the whole text\<close>
  "strptime_mdY sep s =
     (case re_match (Seq [directive_m, lit sep, directive_d, lit sep, directive_Y]) s of
        Some ([m, d, y], []) \<Rightarrow> make_date (int_of_digits y) (int_of_digits m) (int_of_digits d)
      | _ \<Rightarrow> None)"

definition strptime_BdY :: "string \<Rightarrow> date option" where
  \<comment> \<open>\<open>datetime.strptime(s, '%B %d, %Y')\<close>\<close>
  "strptime_BdY s =
     (case re_match (Seq [directive_B, spaces1, directive_d, lit '','', spaces1, directive_Y]) s of
        Some ([b, d, y], []) \<Rightarrow>
          make_date (int_of_digits y) (Suc (index_of (lower b) month_names)) (int_of_digits d)
      | _ \<Rightarrow> None)"

definition strftime_Ymd :: "date \<Rightarrow> string" where
  \<comment> \<open>\<open>strftime('%Y-%m-%d')\<close>; the C library prints a year below 1000 without padding\<close>
  "strftime_Ymd dt = (case dt of (y, m, d) \<Rightarrow> show_nat y @ ''-'' @ pad2 m @ ''-'' @ pad2 d)"

section \<open>RegexParser\<close>

definition DATE_PATTERNS :: "rx list" where
  "DATE_PATTERNS =
     [Grp (Seq [digits 4, lit ''-'', digits 2, lit ''-'', digits 2]),
      Grp (Seq [digits_1_2, lit ''/'', digits_1_2, lit ''/'', digits 4]),
      Grp (Seq [digits_1_2, lit ''-'', digits_1_2, lit ''-'', digits 4]),
      Grp (Seq [Alt (map lit [''jan'', ''feb'', ''mar'', ''apr'', ''may'', ''jun'', ''jul'',
                              ''aug'', ''sep'', ''oct'', ''nov'', ''dec'']),
                Rep is_letter 0 None, lit '' '', digits_1_2,
                Rep (among '','') 0 (Some 1), lit '' '', digits 4])]"

definition capture_line :: rx where
  \<comment> \<open>\<open>\s*([^\n\r]+)\<close>\<close>
  "capture_line = Seq [Rep is_space 0 None, Grp (Rep not_newline 1 None)]"

definition LOCATION_PATTERNS :: "rx list" where
  "LOCATION_PATTERNS =
     [Seq [Alt (map lit [''location'', ''venue'', ''address'', ''at'']), lit '':'', capture_line],
      Seq [Alt (map lit [''held at'', ''taking place at'', ''located at'']), capture_line]]"

definition PREP_PATTERNS :: "rx list" where
  "PREP_PATTERNS =
     [Seq [Alt (map lit [''bring'', ''pack'', ''remember to bring'', ''don'' @ [CHR 0x27] @ ''t forget'']),
           lit '':'', capture_line],
      Seq [Alt (map lit [''items needed'', ''required items'', ''what to bring'']),
           lit '':'', capture_line],
      Seq [Alt (map lit [''prep'', ''preparation'']), lit '':'', capture_line]]"

definition normalize_date :: "string \<Rightarrow> string option" where
  \<comment> \<open>the body of the inner loop of \<open>_extract_dates\<close>; \<open>None\<close> where the \<open>ValueError\<close>
      of \<open>strptime\<close> skips the match\<close>
  "normalize_date m =
     (if re_match (Seq [digits 4, lit ''-'', digits 2, lit ''-'', digits 2]) m \<noteq> None
      then Some m
      else if CHR ''/'' \<in> set m then map_option strftime_Ymd (strptime_mdY ''/'' m)
      else if CHR ''-'' \<in> set m then map_option strftime_Ymd (strptime_mdY ''-'' m)
      else map_option strftime_Ymd (strptime_BdY m))"

definition scan_dates :: "string \<Rightarrow> string list" where
  \<comment> \<open>the list \<open>dates\<close> when the loops of \<open>_extract_dates\<close> are over\<close>
  "scan_dates text =
     concat (map (\<lambda>pattern. List.map_filter normalize_date (re_findall pattern text))
                 DATE_PATTERNS)"

text \<open>
  \<open>list(set(dates))\<close> lists the distinct dates in the iteration order of a Python set of
  strings, which follows their hashes and not the order of insertion. The order is a
  parameter of the model: a function \<open>ord\<close> from the list to the listing of its set.
\<close>

type_synonym set_order = "string list \<Rightarrow> string list"

definition lists_set :: "set_order \<Rightarrow> string list \<Rightarrow> bool" where
  "lists_set ord xs \<longleftrightarrow> distinct (ord xs) \<and> set (ord xs) = set xs"

definition extract_dates :: "set_order \<Rightarrow> string \<Rightarrow> string list" where
  "extract_dates ord text = ord (scan_dates text)"

fun extract_location_from :: "rx list \<Rightarrow> string \<Rightarrow> string option" where
  "extract_location_from [] text = None"
| "extract_location_from (pattern # ps) text =
     (case re_search pattern text of
        Some g \<Rightarrow> Some (strip (concat (take 1 g)))
      | None \<Rightarrow> extract_location_from ps text)"

definition extract_location :: "string \<Rightarrow> string option" where
  "extract_location text = extract_location_from LOCATION_PATTERNS text"

function re_split :: "(char \<Rightarrow> bool) \<Rightarrow> string \<Rightarrow> string list" where
  \<comment> \<open>\<open>re.split\<close> on the runs of the separator class\<close>
  "re_split P s =
     (let rest = dropWhile (\<lambda>c. \<not> P c) s
      in if rest = [] then [s]
         else takeWhile (\<lambda>c. \<not> P c) s # re_split P (dropWhile P (tl rest)))"
  by pat_completeness auto
termination
proof (relation "measure (\<lambda>(P, s). length s)")
  show "wf (measure (\<lambda>(P, s). length s))" by simp
next
  fix P :: "char \<Rightarrow> bool" and s rest :: string
  assume r: "rest = dropWhile (\<lambda>c. \<not> P c) s" and ne: "rest \<noteq> []"
  have "length (dropWhile P (tl rest)) \<le> length (tl rest)"
    by (rule length_dropWhile_le)
  also have "\<dots> < length rest" using ne by (cases rest) simp_all
  also have "\<dots> \<le> length s" unfolding r by (rule length_dropWhile_le)
  finally show "((P, dropWhile P (tl rest)), (P, s)) \<in> measure (\<lambda>(P, s). length s)"
    by simp
qed

declare re_split.simps [simp del]

definition is_item_separator :: "char \<Rightarrow> bool" where
  \<comment> \<open>\<open>[,;\<bullet>\n\r]\<close>; the bullet is no code point below 256\<close>
  "is_item_separator c \<longleftrightarrow> c = CHR '','' \<or> c = CHR '';'' \<or> \<not> not_newline c"

definition prep_items_of :: "rx \<Rightarrow> string \<Rightarrow> string list" where
  \<comment> \<open>one round of the loop of \<open>_extract_prep_items\<close>: what the pattern adds to \<open>items\<close>\<close>
  "prep_items_of pattern text =
     (case re_search pattern text of
        None \<Rightarrow> []
      | Some g \<Rightarrow>
          (let items_text = strip (concat (take 1 g));
               split_items = re_split is_item_separator items_text
           in map strip (filter (\<lambda>item. strip item \<noteq> []) split_items)))"

definition extract_prep_items :: "string \<Rightarrow> string list option" where
  "extract_prep_items text =
     (let items = concat (map (\<lambda>pattern. prep_items_of pattern text) PREP_PATTERNS)
      in if items \<noteq> [] then Some items else None)"

definition prefixes :: "string list" where
  "prefixes = [''re:'', ''fwd:'', ''fw:'', ''[reminder]'', ''[event]'']"

fun strip_prefix :: "string \<times> string \<Rightarrow> string \<Rightarrow> string \<times> string" where
  \<comment> \<open>one round of the loop of \<open>_clean_subject\<close> on \<open>(subject, cleaned)\<close>\<close>
  "strip_prefix (subject, cleaned) prefix =
     (if startswith cleaned prefix
      then (let subject' = strip (drop (length prefix) subject) in (subject', lower subject'))
      else (subject, cleaned))"

definition clean_subject :: "string \<Rightarrow> string" where
  "clean_subject subject = strip (fst (foldl strip_prefix (subject, lower subject) prefixes))"

section \<open>Values decoded from JSON\<close>

text \<open>
  What \<open>json.loads\<close> returns: \<open>None\<close>, a truth value, an integer, a string, a list or a
  dictionary (its keys distinct, in the order of the text). Numbers with a fraction or an
  exponent are left out of the model.
\<close>

datatype pyval =
    PNone
  | PBool bool
  | PInt int
  | PStr string
  | PList "pyval list"
  | PDict "(string \<times> pyval) list"

definition hex_digit :: "nat \<Rightarrow> char" where
  "hex_digit n = ''0123456789abcdef'' ! n"

definition repr_char :: "char \<Rightarrow> char \<Rightarrow> string" where
  \<comment> \<open>one character of a string inside \<open>repr\<close>, \<open>q\<close> being the quote in use\<close>
  "repr_char q c =
     (let n = (of_char c :: nat)
      in if c = q \<or> n = 92 then [CHR 0x5C, c]
         else if n = 9 then [CHR 0x5C, CHR ''t'']
         else if n = 10 then [CHR 0x5C, CHR ''n'']
         else if n = 13 then [CHR 0x5C, CHR ''r'']
         else if n < 32 \<or> (127 \<le> n \<and> n \<le> 160) \<or> n = 173
           then [CHR 0x5C, CHR ''x'', hex_digit (n div 16), hex_digit (n mod 16)]
         else [c])"

definition repr_str :: "string \<Rightarrow> string" where
  \<comment> \<open>\<open>repr\<close> of a string: single quotes, unless it has a single quote and no double one\<close>
  "repr_str s =
     (let q = (if CHR 0x27 \<in> set s \<and> CHR 0x22 \<notin> set s then CHR 0x22 else CHR 0x27)
      in [q] @ concat (map (repr_char q) s) @ [q])"

definition show_int :: "int \<Rightarrow> string" where
  "show_int i = (if i < 0 then CHR ''-'' # show_nat (nat (- i)) else show_nat (nat i))"

fun join :: "string \<Rightarrow> string list \<Rightarrow> string" where
  "join sep [] = []"
| "join sep [x] = x"
| "join sep (x # y # ys) = x @ sep @ join sep (y # ys)"

fun py_repr :: "pyval \<Rightarrow> string" where
  "py_repr PNone = ''None''"
| "py_repr (PBool b) = (if b then ''True'' else ''False'')"
| "py_repr (PInt i) = show_int i"
| "py_repr (PStr s) = repr_str s"
| "py_repr (PList xs) = ''['' @ join '', '' (map py_repr xs) @ '']''"
| "py_repr (PDict kvs) =
     ''{'' @ join '', '' (map (\<lambda>kv. repr_str (fst kv) @ '': '' @ py_repr (snd kv)) kvs) @ ''}''"

definition py_str :: "pyval \<Rightarrow> string" where
  \<comment> \<open>\<open>str\<close>, which an f-string applies to a field\<close>
  "py_str v = (case v of PStr s \<Rightarrow> s | _ \<Rightarrow> py_repr v)"

definition dict_get :: "(string \<times> pyval) list \<Rightarrow> string \<Rightarrow> pyval \<Rightarrow> pyval" where
  \<comment> \<open>\<open>data.get(key, default)\<close>\<close>
  "dict_get data key dflt = (case map_of data key of Some v \<Rightarrow> v | None \<Rightarrow> dflt)"

section \<open>ParsedEvent and \<open>RegexParser.parse\<close>\<close>

text \<open>
  The dataclass checks no type: the title, the location and the preparation items of an
  event built from a model's reply are whatever the reply held, so these fields are
  \<open>pyval\<close>s here. The confidence is a float in the program and a rational number here:
  the sums of the four weights the parser can reach compare with 0.4 and 0.7 in floating
  point as they do exactly.
\<close>

record ParsedEvent =
  title :: pyval
  start_ts :: string
  end_ts :: string
  location :: pyval
  prep_items :: pyval
  confidence :: rat
  child_id :: "string option"

record EmailRecord =
  email_id :: string
  email_user_id :: string
  raw_body :: string
  subject :: string
  from_email :: string
  received_at :: string
  email_processed :: bool

text \<open>The dictionary \<open>parsed_data\<close> of \<open>parse\<close>, a field being \<open>None\<close> while its key is not set.\<close>

record parsed_data =
  pd_title :: "string option"
  pd_start_ts :: "string option"
  pd_end_ts :: "string option"
  pd_location :: "string option"
  pd_prep_items :: "string list option"

definition no_data :: parsed_data where
  "no_data = \<lparr>pd_title = None, pd_start_ts = None, pd_end_ts = None,
              pd_location = None, pd_prep_items = None\<rparr>"

definition new_ParsedEvent :: "parsed_data \<Rightarrow> rat \<Rightarrow> ParsedEvent option" where
  \<comment> \<open>\<open>ParsedEvent(**parsed_data, confidence=confidence)\<close>; \<open>None\<close> for the \<open>TypeError\<close>
      of a required field that is not given\<close>
  "new_ParsedEvent d c =
     (case (pd_title d, pd_start_ts d, pd_end_ts d) of
        (Some t, Some s, Some e) \<Rightarrow>
          Some \<lparr>title = PStr t, start_ts = s, end_ts = e,
                location = (case pd_location d of Some l \<Rightarrow> PStr l | None \<Rightarrow> PNone),
                prep_items = (case pd_prep_items d of
                                Some xs \<Rightarrow> PList (map PStr xs) | None \<Rightarrow> PNone),
                confidence = c, child_id = None\<rparr>
      | _ \<Rightarrow> None)"

definition add_title :: "string \<Rightarrow> parsed_data \<times> rat \<Rightarrow> parsed_data \<times> rat" where
  "add_title t dc =
     (if t \<noteq> [] then ((fst dc)\<lparr>pd_title := Some t\<rparr>, snd dc + 0.2) else dc)"

definition add_dates :: "string list \<Rightarrow> parsed_data \<times> rat \<Rightarrow> parsed_data \<times> rat" where
  "add_dates dates dc =
     (case dates of
        [] \<Rightarrow> dc
      | d0 # ds \<Rightarrow>
          ((fst dc)\<lparr>pd_start_ts := Some d0,
                    pd_end_ts := Some (case ds of d1 # _ \<Rightarrow> d1 | [] \<Rightarrow> d0)\<rparr>,
           snd dc + 0.4))"

definition add_location :: "string option \<Rightarrow> parsed_data \<times> rat \<Rightarrow> parsed_data \<times> rat" where
  "add_location loc dc =
     (case loc of
        None \<Rightarrow> dc
      | Some l \<Rightarrow> if l \<noteq> [] then ((fst dc)\<lparr>pd_location := Some l\<rparr>, snd dc + 0.2) else dc)"

definition add_prep_items :: "string list option \<Rightarrow> parsed_data \<times> rat \<Rightarrow> parsed_data \<times> rat" where
  "add_prep_items items dc =
     (case items of
        None \<Rightarrow> dc
      | Some xs \<Rightarrow> if xs \<noteq> [] then ((fst dc)\<lparr>pd_prep_items := Some xs\<rparr>, snd dc + 0.2) else dc)"

definition accumulate :: "set_order \<Rightarrow> string \<Rightarrow> string \<Rightarrow> parsed_data \<times> rat" where
  \<comment> \<open>\<open>parsed_data\<close> and \<open>confidence\<close> when the four checks of \<open>parse\<close> are done\<close>
  "accumulate ord email_body subj =
     add_prep_items (extract_prep_items email_body)
       (add_location (extract_location email_body)
         (add_dates (extract_dates ord email_body)
           (add_title (clean_subject subj) (no_data, 0))))"

definition parse :: "set_order \<Rightarrow> string \<Rightarrow> string \<Rightarrow> ParsedEvent option \<times> rat" where
  "parse ord email_body subj =
     (let dc = accumulate ord email_body subj; conf = snd dc
      in if conf \<ge> 0.4
         then (case new_ParsedEvent (fst dc) conf of
                 Some event \<Rightarrow> (Some event, conf)
               | None \<Rightarrow> (None, 0))
         else (None, conf))"

section \<open>EventParser\<close>

datatype error =
    StoreError
  | ValueError
  | TypeError
  | OverflowError
  | PushNotificationError string

text \<open>
  What the call of the generative model gives \<open>_parse_with_ollama\<close>: an exception (while
  the prompt is rendered, in \<open>generate\<close>, or on reading the text of the reply), a text that
  \<open>json.loads\<close> rejects, or the value \<open>json.loads\<close> decodes from the text.
\<close>

datatype ollama_reply = GenerateFailed | InvalidJson | Decoded pyval

definition parse_with_ollama :: "ollama_reply \<Rightarrow> ParsedEvent option" where
  \<comment> \<open>a reply that is no dictionary has no \<open>get\<close>: the \<open>AttributeError\<close> ends in the outer
      handler, which returns \<open>None\<close> as the two others do\<close>
  "parse_with_ollama r =
     (case r of
        Decoded (PDict data) \<Rightarrow>
          Some \<lparr>title = dict_get data ''title'' (PStr ''Untitled Event''),
                start_ts = py_str (dict_get data ''start_date'' PNone) @ ''T''
                           @ py_str (dict_get data ''start_time'' (PStr ''00:00'')) @ '':00'',
                end_ts = py_str (dict_get data ''end_date'' (dict_get data ''start_date'' PNone))
                         @ ''T''
                         @ py_str (dict_get data ''end_time''
                                     (dict_get data ''start_time'' (PStr ''23:59'')))
                         @ '':00'',
                location = dict_get data ''location'' PNone,
                prep_items = dict_get data ''prep_items'' PNone,
                confidence = 0.8, child_id = None\<rparr>
      | _ \<Rightarrow> None)"

fun is_substring :: "string \<Rightarrow> string \<Rightarrow> bool" where
  \<comment> \<open>\<open>p in s\<close>\<close>
  "is_substring p [] = (p = [])"
| "is_substring p (c # cs) = (startswith (c # cs) p \<or> is_substring p cs)"

definition find_child_id :: "(string \<times> string) list option \<Rightarrow> string \<Rightarrow> string \<Rightarrow> string option" where
  \<comment> \<open>the first argument is the answer of the store to the query for the children of the
      user, as pairs of id and name, \<open>None\<close> when the query raises\<close>
  "find_child_id children subj body =
     (case children of
        None \<Rightarrow> None
      | Some rows \<Rightarrow>
          (let text = lower (subj @ '' '' @ body)
           in case filter (\<lambda>child. is_substring (lower (snd child)) text) rows of
                [] \<Rightarrow> None
              | child # _ \<Rightarrow> Some (fst child)))"

text \<open>A row of the table \<open>events\<close>. The store gives a row its id.\<close>

record event_row =
  ev_id :: string
  ev_user_id :: string
  ev_source_msg_id :: string
  ev_status :: string
  ev_title :: pyval
  ev_start_ts :: string
  ev_end_ts :: string
  ev_location :: pyval
  ev_prep_items :: pyval
  ev_child_id :: "string option"
  ev_google_calendar_id :: "string option"
  ev_error_message :: "string option"

text \<open>
  The state the coordinator works on: the table \<open>events\<close>, the ids of the messages whose
  row has \<open>processed\<close> set, the calls of \<open>_mark_email_processed\<close> so far (message id and
  the argument \<open>success\<close>), and the delays slept between retries.
\<close>

record parser_state =
  events :: "event_row list"
  processed :: "string set"
  mark_calls :: "(string \<times> bool) list"
  sleeps :: "nat list"

definition default_status :: string where
  \<comment> \<open>the default of the parameter \<open>status\<close> of \<open>_insert_event\<close>\<close>
  "default_status = ''upcoming''"

definition event_data :: "string \<times> string \<Rightarrow> EmailRecord \<Rightarrow> ParsedEvent option \<Rightarrow> string \<Rightarrow> string \<Rightarrow> event_row" where
  \<comment> \<open>the dictionary \<open>event_data\<close> as the row the store makes of it under the id \<open>i\<close>;
      \<open>clock\<close> holds the two readings \<open>datetime.now().isoformat()\<close> of the fallback\<close>
  "event_data clock email parsed_event status i =
     (case parsed_event of
        Some ev \<Rightarrow>
          \<lparr>ev_id = i, ev_user_id = email_user_id email, ev_source_msg_id = email_id email,
           ev_status = status, ev_title = title ev, ev_start_ts = start_ts ev,
           ev_end_ts = end_ts ev, ev_location = location ev, ev_prep_items = prep_items ev,
           ev_child_id = child_id ev, ev_google_calendar_id = None, ev_error_message = None\<rparr>
      | None \<Rightarrow>
          \<lparr>ev_id = i, ev_user_id = email_user_id email, ev_source_msg_id = email_id email,
           ev_status = status, ev_title = PStr (''Review: '' @ subject email),
           ev_start_ts = fst clock, ev_end_ts = snd clock, ev_location = PNone,
           ev_prep_items = PNone, ev_child_id = None, ev_google_calendar_id = None,
           ev_error_message = None\<rparr>)"

definition insert_event :: "string option \<Rightarrow> string \<times> string \<Rightarrow> EmailRecord \<Rightarrow> ParsedEvent option \<Rightarrow> string \<Rightarrow> parser_state \<Rightarrow> error + parser_state" where
  \<comment> \<open>the first argument is the answer of the store to the insert: the id of the new row,
      or \<open>None\<close> when the insert raises, which \<open>_insert_event\<close> raises again\<close>
  "insert_event new_id clock email parsed_event status st =
     (case new_id of
        None \<Rightarrow> Inl StoreError
      | Some i \<Rightarrow>
          Inr (st\<lparr>events := events st @ [event_data clock email parsed_event status i]\<rparr>))"

definition mark_email_processed :: "bool \<Rightarrow> string \<Rightarrow> bool \<Rightarrow> parser_state \<Rightarrow> parser_state" where
  \<comment> \<open>the first argument tells whether the store takes the update; when it raises, the
      exception is logged and dropped. The argument \<open>success\<close> is not written anywhere.\<close>
  "mark_email_processed store_ok i success st =
     st\<lparr>processed := (if store_ok then insert i (processed st) else processed st),
        mark_calls := mark_calls st @ [(i, success)]\<rparr>"

text \<open>What one attempt of \<open>_process_email\<close> meets outside the program.\<close>

record attempt_env =
  lookup_ok :: bool  \<comment> \<open>the query for an existing event reaches the store\<close>
  llm_reply :: ollama_reply
  child_rows :: "(string \<times> string) list option"
  new_event_id :: "string option"
  review_clock :: "string \<times> string"
  mark_ok :: bool

definition attempt :: "set_order \<Rightarrow> attempt_env \<Rightarrow> EmailRecord \<Rightarrow> parser_state \<Rightarrow> (error + unit) \<times> parser_state" where
  \<comment> \<open>the body of the \<open>try\<close> of \<open>_process_email\<close>\<close>
  "attempt ord env email st =
     (if \<not> lookup_ok env then (Inl StoreError, st)
      else if list_ex (\<lambda>row. ev_source_msg_id row = email_id email) (events st)
      then (Inr (), mark_email_processed (mark_ok env) (email_id email) True st)
      else
        (let regex_result = parse ord (raw_body email) (subject email);
             parsed_event = (if snd regex_result < 0.7 then parse_with_ollama (llm_reply env)
                             else fst regex_result)
         in case parsed_event of
              Some ev \<Rightarrow>
                (let child = find_child_id (child_rows env) (subject email) (raw_body email)
                 in case insert_event (new_event_id env) (review_clock env) email
                           (Some (ev\<lparr>child_id := child\<rparr>)) default_status st of
                      Inl e \<Rightarrow> (Inl e, st)
                    | Inr st' \<Rightarrow>
                        (Inr (), mark_email_processed (mark_ok env) (email_id email) True st'))
            | None \<Rightarrow>
                (case insert_event (new_event_id env) (review_clock env) email None ''needs_review'' st of
                   Inl e \<Rightarrow> (Inl e, st)
                 | Inr st' \<Rightarrow>
                     (Inr (), mark_email_processed (mark_ok env) (email_id email) True st'))))"

definition max_retries :: nat where
  "max_retries = 3"

fun retry_loop :: "set_order \<Rightarrow> (nat \<Rightarrow> attempt_env) \<Rightarrow> EmailRecord \<Rightarrow> nat list \<Rightarrow> nat \<Rightarrow> parser_state \<Rightarrow> (error + unit) \<times> parser_state" where
  \<comment> \<open>the loop \<open>for attempt in range(max_retries)\<close>, on the attempts still to run and
      the current \<open>retry_delay\<close>\<close>
  "retry_loop ord env email [] retry_delay st = (Inr (), st)"
| "retry_loop ord env email (n # ns) retry_delay st =
     (case attempt ord (env n) email st of
        (Inr u, st') \<Rightarrow> (Inr u, st')
      | (Inl e, st') \<Rightarrow>
          (if n < max_retries - 1
           then retry_loop ord env email ns (retry_delay * 2)
                  (st'\<lparr>sleeps := sleeps st' @ [retry_delay]\<rparr>)
           else (Inl e, mark_email_processed (mark_ok (env n)) (email_id email) False st')))"

definition process_email :: "set_order \<Rightarrow> (nat \<Rightarrow> attempt_env) \<Rightarrow> EmailRecord \<Rightarrow> parser_state \<Rightarrow> (error + unit) \<times> parser_state" where
  "process_email ord env email st = retry_loop ord env email [0..<max_retries] 1 st"

text \<open>
  The loop \<open>for email in emails\<close> of \<open>parse_queue\<close> over one batch. Each message comes
  with what its attempts meet, and with the answer of the store to the update of the
  handler of the loop.
\<close>

type_synonym email_env = "(nat \<Rightarrow> attempt_env) \<times> bool"

definition process_in_batch :: "set_order \<Rightarrow> EmailRecord \<times> email_env \<Rightarrow> parser_state \<Rightarrow> parser_state" where
  \<comment> \<open>one round of the loop: \<open>_process_email\<close>, and the handler of its exception\<close>
  "process_in_batch ord item st =
     (case item of (email, env, handler_ok) \<Rightarrow>
        (case process_email ord env email st of
           (Inr u, st') \<Rightarrow> st'
         | (Inl e, st') \<Rightarrow> mark_email_processed handler_ok (email_id email) False st'))"

definition process_batch :: "set_order \<Rightarrow> (EmailRecord \<times> email_env) list \<Rightarrow> parser_state \<Rightarrow> parser_state" where
  "process_batch ord items st = foldl (\<lambda>s item. process_in_batch ord item s) st items"

section \<open>ReminderWorker: events and reminder scheduling\<close>

definition get_pending_events :: "bool \<Rightarrow> event_row list \<Rightarrow> error + event_row list" where
  \<comment> \<open>the first argument tells whether the query reaches the store\<close>
  "get_pending_events reachable rows =
     (if reachable then Inr (filter (\<lambda>row. ev_status row = ''pending'') rows)
      else Inl StoreError)"

text \<open>
  A \<open>datetime\<close> is the number of microseconds since \<open>datetime.min\<close>, the first instant
  of year 1. \<open>datetime.fromisoformat\<close> is a parameter of the model; it raises
  \<open>ValueError\<close>, or returns a date-time without offset (\<open>Naive\<close>, which
  \<open>datetime.utcnow()\<close> returns too) or one with an offset (\<open>Aware\<close>, given by its
  wall-clock reading). Python refuses to order one of each kind.
\<close>

datatype iso_datetime = Invalid | Naive int | Aware int

definition hours :: "int \<Rightarrow> int" where
  "hours n = n * 3600000000"

definition minutes :: "int \<Rightarrow> int" where
  "minutes n = n * 60000000"

definition replace_Z :: "string \<Rightarrow> string" where
  \<comment> \<open>\<open>.replace('Z', '+00:00')\<close>\<close>
  "replace_Z s = concat (map (\<lambda>c. if c = CHR ''Z'' then ''+00:00'' else [c]) s)"

definition truthy :: "pyval \<Rightarrow> bool" where
  "truthy v =
     (case v of PNone \<Rightarrow> False | PBool b \<Rightarrow> b | PInt i \<Rightarrow> i \<noteq> 0 | PStr t \<Rightarrow> t \<noteq> []
      | PList xs \<Rightarrow> xs \<noteq> [] | PDict kvs \<Rightarrow> kvs \<noteq> [])"

text \<open>
  A dictionary of \<open>reminders_to_insert\<close>. The instant \<open>rd_notify_at_ts\<close> stands for its
  \<open>isoformat\<close> text.
\<close>

record reminder_data =
  rd_event_id :: string
  rd_user_id :: string
  rd_notify_at_ts :: int
  rd_message :: string
  rd_push_token :: "string option"
  rd_status :: string
  rd_retry_count :: int

definition reminder_times :: "int \<Rightarrow> (int \<times> string) list" where
  "reminder_times start_time =
     [(start_time - hours 24, ''24 hours''),
      (start_time - hours 3, ''3 hours''),
      (start_time - minutes 30, ''30 minutes'')]"

definition reminder_message :: "event_row \<Rightarrow> string \<Rightarrow> string" where
  "reminder_message event time_desc =
     ''Reminder: '' @ py_str (ev_title event) @ '' starts in '' @ time_desc
     @ (if truthy (ev_location event) then '' at '' @ py_str (ev_location event) else [])"

fun reminders_to_insert :: "(nat \<Rightarrow> int) \<Rightarrow> event_row \<Rightarrow> string option \<Rightarrow> nat \<Rightarrow> (int \<times> string) list \<Rightarrow> reminder_data list" where
  \<comment> \<open>the loop over \<open>reminder_times\<close> for a start without offset; \<open>utcnow k\<close> is the
      reading of the clock in round \<open>k\<close> of the loop, every round taking its own\<close>
  "reminders_to_insert utcnow event push_token k [] = []"
| "reminders_to_insert utcnow event push_token k ((notify_time, time_desc) # rest) =
     (if notify_time \<le> utcnow k then reminders_to_insert utcnow event push_token (Suc k) rest
      else \<lparr>rd_event_id = ev_id event, rd_user_id = ev_user_id event,
            rd_notify_at_ts = notify_time, rd_message = reminder_message event time_desc,
            rd_push_token = push_token, rd_status = ''pending'', rd_retry_count = 0\<rparr>
           # reminders_to_insert utcnow event push_token (Suc k) rest)"

definition create_reminders :: "(string \<Rightarrow> iso_datetime) \<Rightarrow> (nat \<Rightarrow> int) \<Rightarrow> string option list option \<Rightarrow> bool \<Rightarrow> event_row \<Rightarrow> error + reminder_data list" where
  \<comment> \<open>\<open>users\<close> is the answer of the store to the query for the user: the push tokens of
      the rows found, \<open>None\<close> when the query raises; \<open>upsert_ok\<close> tells whether the store
      takes the upsert. The result is the batch handed to the upsert, which is not called
      for an empty batch. Every exception is logged and raised again.\<close>
  "create_reminders fromisoformat utcnow users upsert_ok event =
     (case fromisoformat (replace_Z (ev_start_ts event)) of
        Invalid \<Rightarrow> Inl ValueError
      | Aware start_time \<Rightarrow>
          (if start_time - hours 24 < 0 then Inl OverflowError
           else if users = None then Inl StoreError
           else Inl TypeError)
      | Naive start_time \<Rightarrow>
          (if start_time - hours 24 < 0 then Inl OverflowError
           else case users of
                  None \<Rightarrow> Inl StoreError
                | Some rows \<Rightarrow>
                    (let push_token = (case rows of [] \<Rightarrow> None | token # _ \<Rightarrow> token);
                         batch = reminders_to_insert utcnow event push_token 0
                                   (reminder_times start_time)
                     in if batch \<noteq> [] \<and> \<not> upsert_ok then Inl StoreError else Inr batch)))"

section \<open>ReminderWorker: push notifications\<close>

text \<open>A row of the table \<open>reminders\<close>, which is what a \<open>ReminderRecord\<close> copies.\<close>

record ReminderRecord =
  rm_id :: string
  rm_event_id :: string
  rm_user_id :: string
  rm_notify_at_ts :: int
  rm_message :: string
  rm_push_token :: "string option"
  rm_sent_at_ts :: "int option"
  rm_status :: string
  rm_retry_count :: int
  rm_error_message :: "string option"

definition update_by_id :: "string \<Rightarrow> (ReminderRecord \<Rightarrow> ReminderRecord) \<Rightarrow> ReminderRecord list \<Rightarrow> ReminderRecord list" where
  \<comment> \<open>\<open>table('reminders').update(...).eq('id', i)\<close>\<close>
  "update_by_id i f rows = map (\<lambda>row. if rm_id row = i then f row else row) rows"

definition get_pending_reminders :: "bool \<Rightarrow> int \<Rightarrow> ReminderRecord list \<Rightarrow> error + ReminderRecord list" where
  "get_pending_reminders reachable now rows =
     (if reachable
      then Inr (filter (\<lambda>row. rm_notify_at_ts row \<le> now \<and> rm_sent_at_ts row = None
                              \<and> rm_status row = ''pending'') rows)
      else Inl StoreError)"

definition given :: "string option \<Rightarrow> bool" where
  \<comment> \<open>the truth value of an optional string: neither \<open>None\<close> nor empty\<close>
  "given x = (case x of None \<Rightarrow> False | Some t \<Rightarrow> t \<noteq> [])"

definition mark_reminder_sent :: "bool \<Rightarrow> int \<Rightarrow> string \<Rightarrow> string option \<Rightarrow> ReminderRecord list \<Rightarrow> ReminderRecord list" where
  \<comment> \<open>\<open>store_ok\<close> tells whether the store takes the update, whose exception is logged and
      dropped; \<open>now\<close> is the reading of \<open>datetime.utcnow()\<close>\<close>
  "mark_reminder_sent store_ok now i error_message rows =
     (if store_ok
      then update_by_id i
             (\<lambda>row. row\<lparr>rm_sent_at_ts := Some now,
                         rm_status := (if \<not> given error_message then ''sent'' else ''failed''),
                         rm_error_message := (if given error_message then error_message
                                              else rm_error_message row)\<rparr>) rows
      else rows)"

text \<open>
  What the push provider does with a message: the response is a success, or is none (with
  its details), or one of the three kinds of exception the program tells apart is raised.
\<close>

datatype push_result =
    Success
  | NotSuccess string
  | DeviceNotRegisteredError
  | PushServerError string
  | OtherException string

definition send_push_notification :: "push_result \<Rightarrow> bool \<Rightarrow> int \<Rightarrow> ReminderRecord \<Rightarrow> ReminderRecord list \<Rightarrow> (error + unit) \<times> ReminderRecord list" where
  "send_push_notification res store_ok now reminder rows =
     (if \<not> given (rm_push_token reminder)
      then (Inr (), mark_reminder_sent store_ok now (rm_id reminder) (Some ''No push token'') rows)
      else case res of
             Success \<Rightarrow> (Inr (), mark_reminder_sent store_ok now (rm_id reminder) None rows)
           | NotSuccess details \<Rightarrow>
               (Inl (PushNotificationError (''Failed to send push notification: ''
                       @ ''Push notification failed: '' @ details)), rows)
           | DeviceNotRegisteredError \<Rightarrow>
               (Inr (), mark_reminder_sent store_ok now (rm_id reminder)
                          (Some ''Device not registered'') rows)
           | PushServerError e \<Rightarrow>
               (Inl (PushNotificationError (''Push server error: '' @ e)), rows)
           | OtherException e \<Rightarrow>
               (Inl (PushNotificationError (''Failed to send push notification: '' @ e)), rows))"

definition handle_push_failure :: "bool \<Rightarrow> ReminderRecord \<Rightarrow> string \<Rightarrow> ReminderRecord list \<Rightarrow> ReminderRecord list" where
  "handle_push_failure store_ok reminder error_message rows =
     (let retry_count = rm_retry_count reminder + 1
      in if \<not> store_ok then rows
         else if retry_count \<ge> 5
         then update_by_id (rm_id reminder)
                (\<lambda>row. row\<lparr>rm_status := ''failed'', rm_error_message := Some error_message,
                            rm_retry_count := retry_count\<rparr>) rows
         else update_by_id (rm_id reminder)
                (\<lambda>row. row\<lparr>rm_retry_count := retry_count,
                            rm_error_message := Some error_message\<rparr>) rows)"

definition error_text :: "error \<Rightarrow> string" where
  \<comment> \<open>\<open>str(e)\<close>\<close>
  "error_text e = (case e of PushNotificationError m \<Rightarrow> m | _ \<Rightarrow> [])"

text \<open>What the dispatch of one reminder meets outside the program.\<close>

record push_env =
  outcome :: push_result
  sent_now :: int  \<comment> \<open>the reading of the clock in \<open>_mark_reminder_sent\<close>\<close>
  sent_ok :: bool  \<comment> \<open>the store takes the update of \<open>_mark_reminder_sent\<close>\<close>
  failure_ok :: bool  \<comment> \<open>the store takes the update of \<open>_handle_push_failure\<close>\<close>

definition dispatch :: "push_env \<Rightarrow> ReminderRecord \<Rightarrow> ReminderRecord list \<Rightarrow> ReminderRecord list" where
  \<comment> \<open>one round of the loop of \<open>process_push_notifications\<close>\<close>
  "dispatch env reminder rows =
     (case send_push_notification (outcome env) (sent_ok env) (sent_now env) reminder rows of
        (Inr u, rows') \<Rightarrow> rows'
      | (Inl e, rows') \<Rightarrow> handle_push_failure (failure_ok env) reminder (error_text e) rows')"

definition process_push_notifications :: "bool \<Rightarrow> int \<Rightarrow> (string \<Rightarrow> push_env) \<Rightarrow> ReminderRecord list \<Rightarrow> ReminderRecord list" where
  \<comment> \<open>one run of the dispatcher at the instant \<open>now\<close>: the reminders fetched at the start
      are dispatched one after the other; \<open>env\<close> tells what the dispatch of the reminder
      of a given id meets\<close>
  "process_push_notifications reachable now env rows =
     (case get_pending_reminders reachable now rows of
        Inl e \<Rightarrow> rows
      | Inr pending \<Rightarrow> foldl (\<lambda>rs reminder. dispatch (env (rm_id reminder)) reminder rs) rows pending)"

type_synonym run = "bool \<times> int \<times> (string \<Rightarrow> push_env)"

definition dispatcher_runs :: "run list \<Rightarrow> ReminderRecord list \<Rightarrow> ReminderRecord list" where
  \<comment> \<open>any number of runs of the dispatcher, one after the other\<close>
  "dispatcher_runs runs rows =
     foldl (\<lambda>rs r. case r of (reachable, now, env) \<Rightarrow> process_push_notifications reachable now env rs)
           rows runs"

section \<open>Auxiliary notions and example inputs\<close>

definition sent_at_set :: "string \<Rightarrow> ReminderRecord list \<Rightarrow> bool" where
  \<comment> \<open>every row of the given id has its sent-at instant\<close>
  "sent_at_set i rows \<longleftrightarrow> list_all (\<lambda>row. rm_id row = i \<longrightarrow> rm_sent_at_ts row \<noteq> None) rows"

text \<open>A reminder of the table, for the examples: due, never sent, with no push token.\<close>

definition reminder1 :: ReminderRecord where
  "reminder1 = \<lparr>rm_id = ''r1'', rm_event_id = ''e1'', rm_user_id = ''u1'',
                rm_notify_at_ts = 100, rm_message = ''Reminder: Soccer starts in 3 hours'',
                rm_push_token = None, rm_sent_at_ts = None, rm_status = ''pending'',
                rm_retry_count = 0, rm_error_message = None\<rparr>"

definition env1 :: push_env where
  "env1 = \<lparr>outcome = Success, sent_now = 200, sent_ok = True, failure_ok = True\<rparr>"

definition reminder2 :: ReminderRecord where
  "reminder2 = reminder1\<lparr>rm_id := ''r2'', rm_push_token := Some ''ExponentPushToken[a]''\<rparr>"

text \<open>
  An event of the table, starting on 2024-03-15 at 15:00, and \<open>fromisoformat\<close> on its
  start: 63846111600000000 microseconds lie between \<open>datetime.min\<close> and that instant.
\<close>

definition event1 :: event_row where
  "event1 = \<lparr>ev_id = ''e1'', ev_user_id = ''u1'', ev_source_msg_id = ''m1'',
             ev_status = ''pending'', ev_title = PStr ''Soccer Practice'',
             ev_start_ts = ''2024-03-15T15:00:00'', ev_end_ts = ''2024-03-15T16:00:00'',
             ev_location = PStr ''Sports Center'', ev_prep_items = PList [PStr ''cleats''],
             ev_child_id = None, ev_google_calendar_id = None, ev_error_message = None\<rparr>"

definition start1 :: int where
  "start1 = 63846111600000000"

definition fromisoformat1 :: "string \<Rightarrow> iso_datetime" where
  "fromisoformat1 s = (if s = ''2024-03-15T15:00:00'' then Naive start1 else Invalid)"

text \<open>
  Two messages, the empty state of the coordinator, and what an attempt can meet: a store
  that cannot be reached, a model whose reply is no JSON, and a working store.
\<close>

definition body8 :: string where
  "body8 = ''Practice is on 2024-03-15'' @ [CHR 0x0A] @ ''Location: Community Field''
           @ [CHR 0x0A] @ ''Please bring: water, cleats''"

definition email1 :: EmailRecord where
  "email1 = \<lparr>email_id = ''m1'', email_user_id = ''u1'', raw_body = body8,
             subject = ''Re: Soccer Practice Tomorrow'', from_email = ''coach@example.com'',
             received_at = ''2024-03-01T10:00:00Z'', email_processed = False\<rparr>"

definition email2 :: EmailRecord where
  "email2 = \<lparr>email_id = ''m2'', email_user_id = ''u1'', raw_body = ''See you soon'',
             subject = ''Hello'', from_email = ''friend@example.com'',
             received_at = ''2024-03-01T11:00:00Z'', email_processed = False\<rparr>"

definition state0 :: parser_state where
  "state0 = \<lparr>events = [], processed = {}, mark_calls = [], sleeps = []\<rparr>"

definition store_down :: attempt_env where
  "store_down = \<lparr>lookup_ok = False, llm_reply = GenerateFailed, child_rows = None,
                 new_event_id = None, review_clock = ([], []), mark_ok = True\<rparr>"

definition no_json :: attempt_env where
  "no_json = \<lparr>lookup_ok = True, llm_reply = InvalidJson, child_rows = Some [],
              new_event_id = Some ''e2'',
              review_clock = (''2024-03-01T11:00:05'', ''2024-03-01T11:00:05''),
              mark_ok = True\<rparr>"

definition store_up :: attempt_env where
  "store_up = \<lparr>lookup_ok = True, llm_reply = GenerateFailed,
               child_rows = Some [], new_event_id = Some ''e1'',
               review_clock = (''2024-03-01T10:00:05'', ''2024-03-01T10:00:05''),
               mark_ok = True\<rparr>"

text \<open>
  A body with a location and preparation items and no date, a body with two dates, and
  a listing of a set in the reverse order of the first occurrences.
\<close>

definition body4 :: string where
  "body4 = ''at: x'' @ [CHR 0x0A] @ ''bring: y''"

definition body6 :: string where
  "body6 = ''2024-03-15 to 2024-03-16''"

definition backwards :: set_order where
  "backwards xs = rev (remdups xs)"

section \<open>Facts about the generative parser\<close>

text \<open>
  C7, as the program has it. A reply that decodes to a dictionary always gives a
  candidate. Its start is the text of \<open>start_date\<close>, a \<open>T\<close>, the text of \<open>start_time\<close>
  and \<open>:00\<close>, the time being \<open>00:00\<close> when the key \<open>start_time\<close> is missing. Its end
  takes the date of \<open>end_date\<close>, and of \<open>start_date\<close> when the key \<open>end_date\<close> is missing;
  it takes the time of \<open>end_time\<close>, when that key is missing the time of \<open>start_time\<close>,
  and \<open>23:59\<close> when both keys are missing. A missing \<open>start_date\<close> prints as \<open>None\<close>.
\<close>

theorem ollama_timestamp_defaults:
  "parse_with_ollama (Decoded (PDict data)) \<noteq> None \<and>
   map_option start_ts (parse_with_ollama (Decoded (PDict data))) =
     Some ((case map_of data ''start_date'' of Some d \<Rightarrow> py_str d | None \<Rightarrow> ''None'')
           @ ''T''
           @ (case map_of data ''start_time'' of Some t \<Rightarrow> py_str t | None \<Rightarrow> ''00:00'')
           @ '':00'') \<and>
   map_option end_ts (parse_with_ollama (Decoded (PDict data))) =
     Some ((case map_of data ''end_date'' of
              Some d \<Rightarrow> py_str d
            | None \<Rightarrow> (case map_of data ''start_date'' of
                         Some d \<Rightarrow> py_str d | None \<Rightarrow> ''None''))
           @ ''T''
           @ (case map_of data ''end_time'' of
                Some t \<Rightarrow> py_str t
              | None \<Rightarrow> (case map_of data ''start_time'' of
                           Some t \<Rightarrow> py_str t | None \<Rightarrow> ''23:59''))
           @ '':00'')"
  by (simp add: parse_with_ollama_def dict_get_def py_str_def split: option.splits)

text \<open>
  C7 as stated fails on a reply that has a start date and no time at all: the start time
  is \<open>00:00\<close>, and the end time is \<open>23:59\<close>, not the start time.
\<close>

theorem ollama_end_time_counterexample:
  "map_option (\<lambda>ev. (start_ts ev, end_ts ev))
     (parse_with_ollama (Decoded (PDict [(''start_date'', PStr ''2024-03-16'')])))
   = Some (''2024-03-16T00:00:00'', ''2024-03-16T23:59:00'')"
  by (simp add: parse_with_ollama_def dict_get_def py_str_def)

section \<open>Facts about the dispatcher\<close>


lemma update_by_id_keeps_sent:
  assumes "sent_at_set i rows"
    and "\<And>row. rm_sent_at_ts row \<noteq> None \<Longrightarrow> rm_sent_at_ts (f row) \<noteq> None"
    and "\<And>row. rm_id (f row) = rm_id row"
  shows "sent_at_set i (update_by_id j f rows)"
  using assms by (auto simp: sent_at_set_def update_by_id_def list_all_iff)

lemma mark_reminder_sent_keeps_sent:
  "sent_at_set i rows \<Longrightarrow> sent_at_set i (mark_reminder_sent ok now j remark rows)"
  unfolding mark_reminder_sent_def by (simp add: update_by_id_keeps_sent)

lemma handle_push_failure_keeps_sent:
  "sent_at_set i rows \<Longrightarrow> sent_at_set i (handle_push_failure ok reminder msg rows)"
  unfolding handle_push_failure_def Let_def by (simp add: update_by_id_keeps_sent)

lemma send_push_notification_keeps_sent:
  "sent_at_set i rows \<Longrightarrow> sent_at_set i (snd (send_push_notification res ok now reminder rows))"
  unfolding send_push_notification_def
  by (cases res) (simp_all add: mark_reminder_sent_keeps_sent)

lemma dispatch_keeps_sent:
  assumes "sent_at_set i rows"
  shows "sent_at_set i (dispatch env reminder rows)"
proof -
  obtain r rows' where s: "send_push_notification (outcome env) (sent_ok env) (sent_now env) reminder rows = (r, rows')"
    by (cases "send_push_notification (outcome env) (sent_ok env) (sent_now env) reminder rows")
  have "sent_at_set i rows'"
    using send_push_notification_keeps_sent [OF assms, of "outcome env" "sent_ok env" "sent_now env" reminder]
    by (simp add: s)
  then show ?thesis
    unfolding dispatch_def s by (cases r) (simp_all add: handle_push_failure_keeps_sent)
qed

lemma dispatch_all_keeps_sent:
  "sent_at_set i rows \<Longrightarrow>
   sent_at_set i (foldl (\<lambda>rs reminder. dispatch (env (rm_id reminder)) reminder rs) rows pending)"
  by (induction pending arbitrary: rows) (simp_all add: dispatch_keeps_sent)

lemma process_push_notifications_keeps_sent:
  "sent_at_set i rows \<Longrightarrow> sent_at_set i (process_push_notifications reachable now env rows)"
  unfolding process_push_notifications_def
  by (simp add: dispatch_all_keeps_sent split: sum.splits)

lemma dispatcher_runs_keeps_sent:
  "sent_at_set i rows \<Longrightarrow> sent_at_set i (dispatcher_runs runs rows)"
proof (induction runs arbitrary: rows)
  case Nil
  then show ?case by (simp add: dispatcher_runs_def)
next
  case (Cons r runs)
  obtain reachable now env where r: "r = (reachable, now, env)" by (cases r)
  have "sent_at_set i (process_push_notifications reachable now env rows)"
    using Cons.prems by (rule process_push_notifications_keeps_sent)
  then have "sent_at_set i (dispatcher_runs runs (process_push_notifications reachable now env rows))"
    by (rule Cons.IH)
  then show ?case by (simp add: dispatcher_runs_def r)
qed

lemma sent_never_pending:
  assumes "sent_at_set i rows" and "get_pending_reminders reachable now rows = Inr pending"
  shows "i \<notin> rm_id ` set pending"
  using assms
  by (auto simp: sent_at_set_def get_pending_reminders_def list_all_iff split: if_splits)

lemma mark_reminder_sent_sets_sent:
  "sent_at_set i (mark_reminder_sent True now i remark rows)"
  unfolding sent_at_set_def mark_reminder_sent_def update_by_id_def
  by (induction rows) simp_all

lemma terminal_dispatch:
  assumes "sent_ok env"
    and "\<not> given (rm_push_token reminder) \<or> outcome env = DeviceNotRegisteredError"
  shows "dispatch env reminder rows =
           mark_reminder_sent True (sent_now env) (rm_id reminder)
             (Some (if \<not> given (rm_push_token reminder) then ''No push token''
                    else ''Device not registered'')) rows"
  using assms by (auto simp: dispatch_def send_push_notification_def)

text \<open>
  C2, as the program has it. A reminder with no push token, or whose send raises the
  error of a device that is not registered, is handed to the mark-sent operation with a
  note, and the note makes that operation write the status \<open>failed\<close>, with the sent-at
  instant and the note as error message, if the store takes the update. The send raises
  nothing, so the failure handler does not run: the retry count of every row stays as it
  was, and no later query for pending reminders returns the reminder.
\<close>

theorem terminal_push_marked_failed:
  assumes "sent_ok env"
    and "\<not> given (rm_push_token reminder) \<or> outcome env = DeviceNotRegisteredError"
  shows "fst (send_push_notification (outcome env) (sent_ok env) (sent_now env) reminder rows)
           = Inr () \<and>
         dispatch env reminder rows =
           update_by_id (rm_id reminder)
             (\<lambda>row. row\<lparr>rm_sent_at_ts := Some (sent_now env), rm_status := ''failed'',
                         rm_error_message :=
                           Some (if \<not> given (rm_push_token reminder) then ''No push token''
                                 else ''Device not registered'')\<rparr>) rows \<and>
         map rm_retry_count (dispatch env reminder rows) = map rm_retry_count rows \<and>
         (\<forall>reachable now pending.
            get_pending_reminders reachable now (dispatch env reminder rows) = Inr pending
            \<longrightarrow> rm_id reminder \<notin> rm_id ` set pending)"
proof -
  let ?note = "if \<not> given (rm_push_token reminder) then ''No push token''
               else ''Device not registered''"
  have d: "dispatch env reminder rows =
             mark_reminder_sent True (sent_now env) (rm_id reminder) (Some ?note) rows"
    using assms by (rule terminal_dispatch)
  have g: "given (Some ?note)" by (simp add: given_def)
  have 1: "fst (send_push_notification (outcome env) (sent_ok env) (sent_now env) reminder rows)
             = Inr ()"
    using assms by (auto simp: send_push_notification_def)
  have 2: "dispatch env reminder rows =
             update_by_id (rm_id reminder)
               (\<lambda>row. row\<lparr>rm_sent_at_ts := Some (sent_now env), rm_status := ''failed'',
                           rm_error_message := Some ?note\<rparr>) rows"
    unfolding d mark_reminder_sent_def using g by simp
  have 3: "map rm_retry_count (dispatch env reminder rows) = map rm_retry_count rows"
    unfolding 2 update_by_id_def by (induction rows) auto
  have "sent_at_set (rm_id reminder) (dispatch env reminder rows)"
    unfolding d by (rule mark_reminder_sent_sets_sent)
  then have 4: "\<forall>reachable now pending.
      get_pending_reminders reachable now (dispatch env reminder rows) = Inr pending
      \<longrightarrow> rm_id reminder \<notin> rm_id ` set pending"
    by (blast dest: sent_never_pending)
  from 1 2 3 4 show ?thesis by blast
qed

theorem terminal_push_marked_failed_witness:
  "sent_ok env1 \<and> \<not> given (rm_push_token reminder1) \<and>
   map rm_status (dispatch env1 reminder1 [reminder1]) = [''failed''] \<and>
   map rm_sent_at_ts (dispatch env1 reminder1 [reminder1]) = [Some 200] \<and>
   map rm_error_message (dispatch env1 reminder1 [reminder1]) = [Some ''No push token''] \<and>
   map rm_retry_count (dispatch env1 reminder1 [reminder1]) = [0] \<and>
   get_pending_reminders True 300 (dispatch env1 reminder1 [reminder1]) = Inr []"
proof -
  have h1: "sent_ok env1" by (simp add: env1_def)
  have h2: "\<not> given (rm_push_token reminder1) \<or> outcome env1 = DeviceNotRegisteredError"
    by (simp add: reminder1_def given_def)
  note t = terminal_push_marked_failed [OF h1 h2, of "[reminder1]"]
  have p: "get_pending_reminders True 300 (dispatch env1 reminder1 [reminder1]) = Inr []"
    using t by (simp add: get_pending_reminders_def update_by_id_def reminder1_def env1_def)
  show ?thesis
    using t h1 p by (simp add: update_by_id_def reminder1_def env1_def given_def)
qed

text \<open>
  C2 as stated fails on a due reminder with no push token: the status written is
  \<open>failed\<close>, not \<open>sent\<close>.
\<close>

theorem missing_token_counterexample:
  "map rm_status (dispatch env1 reminder1 [reminder1]) \<noteq> [''sent'']"
  by (simp add: dispatch_def send_push_notification_def mark_reminder_sent_def
      update_by_id_def given_def reminder1_def env1_def)

text \<open>
  C10. A reminder that the dispatcher hands to the mark-sent operation (after a successful
  push, for a missing push token, or for a device that is not registered) has, if the
  store takes the update, its sent-at instant set by the update that writes its status,
  whichever status that is. From then on, after any number of runs of the dispatcher, no
  query for pending reminders returns it, so it is not sent or retried again.
\<close>

theorem marked_sent_is_terminal:
  assumes "sent_ok env"
    and "\<not> given (rm_push_token reminder) \<or> outcome env = Success
         \<or> outcome env = DeviceNotRegisteredError"
  shows "(\<exists>remark. dispatch env reminder rows =
            update_by_id (rm_id reminder)
              (\<lambda>row. row\<lparr>rm_sent_at_ts := Some (sent_now env),
                          rm_status := (if \<not> given remark then ''sent'' else ''failed''),
                          rm_error_message := (if given remark then remark
                                               else rm_error_message row)\<rparr>) rows) \<and>
         (\<forall>runs reachable now pending.
            get_pending_reminders reachable now
              (dispatcher_runs runs (dispatch env reminder rows)) = Inr pending
            \<longrightarrow> rm_id reminder \<notin> rm_id ` set pending)"
proof -
  have "\<exists>remark. dispatch env reminder rows =
          mark_reminder_sent True (sent_now env) (rm_id reminder) remark rows"
    using assms by (auto simp: dispatch_def send_push_notification_def)
  then obtain remark where d: "dispatch env reminder rows =
      mark_reminder_sent True (sent_now env) (rm_id reminder) remark rows" ..
  have 1: "\<exists>remark. dispatch env reminder rows =
            update_by_id (rm_id reminder)
              (\<lambda>row. row\<lparr>rm_sent_at_ts := Some (sent_now env),
                          rm_status := (if \<not> given remark then ''sent'' else ''failed''),
                          rm_error_message := (if given remark then remark
                                               else rm_error_message row)\<rparr>) rows"
    unfolding d mark_reminder_sent_def by auto
  have "sent_at_set (rm_id reminder) (dispatch env reminder rows)"
    unfolding d by (rule mark_reminder_sent_sets_sent)
  then have "\<And>runs. sent_at_set (rm_id reminder) (dispatcher_runs runs (dispatch env reminder rows))"
    by (rule dispatcher_runs_keeps_sent)
  then have 2: "\<forall>runs reachable now pending.
      get_pending_reminders reachable now
        (dispatcher_runs runs (dispatch env reminder rows)) = Inr pending
      \<longrightarrow> rm_id reminder \<notin> rm_id ` set pending"
    by (blast dest: sent_never_pending)
  from 1 2 show ?thesis by blast
qed

theorem marked_sent_is_terminal_witness:
  "sent_ok env1 \<and> outcome env1 = Success \<and>
   map rm_status (dispatch env1 reminder2 [reminder2]) = [''sent''] \<and>
   map rm_sent_at_ts (dispatch env1 reminder2 [reminder2]) = [Some 200] \<and>
   get_pending_reminders True 400
     (dispatcher_runs [(True, 300, \<lambda>i. env1)] (dispatch env1 reminder2 [reminder2]))
   = Inr []"
proof -
  have h1: "sent_ok env1" by (simp add: env1_def)
  have h2: "\<not> given (rm_push_token reminder2) \<or> outcome env1 = Success
            \<or> outcome env1 = DeviceNotRegisteredError"
    by (simp add: env1_def)
  note t = marked_sent_is_terminal [OF h1 h2, of "[reminder2]"]
  have h3: "outcome env1 = Success" by (simp add: env1_def)
  have s: "dispatch env1 reminder2 [reminder2] =
             [reminder2\<lparr>rm_sent_at_ts := Some 200, rm_status := ''sent''\<rparr>]"
    by (simp add: dispatch_def send_push_notification_def mark_reminder_sent_def
        update_by_id_def given_def reminder1_def reminder2_def env1_def)
  have m: "map rm_status (dispatch env1 reminder2 [reminder2]) = [''sent''] \<and>
           map rm_sent_at_ts (dispatch env1 reminder2 [reminder2]) = [Some 200]"
    by (simp add: s)
  have p: "get_pending_reminders True 400
             (dispatcher_runs [(True, 300, \<lambda>i. env1)] (dispatch env1 reminder2 [reminder2]))
           = Inr []"
    using t
    by (simp add: s dispatcher_runs_def process_push_notifications_def
        get_pending_reminders_def)
  from h1 h3 m p show ?thesis by blast
qed

section \<open>Facts about reminder scheduling\<close>

lemma reminders_to_insert_instants:
  "map rd_notify_at_ts (reminders_to_insert utcnow event token 0 [(a, da), (b, db), (c, dc)]) =
     (if a \<le> utcnow 0 then [] else [a]) @ (if b \<le> utcnow 1 then [] else [b])
     @ (if c \<le> utcnow 2 then [] else [c])"
  by (simp add: numeral_2_eq_2)

lemma create_reminders_instants:
  assumes "fromisoformat (replace_Z (ev_start_ts event)) = Naive start"
    and "hours 24 \<le> start" and "users = Some rows" and "upsert_ok"
  shows "\<exists>batch. create_reminders fromisoformat utcnow users upsert_ok event = Inr batch \<and>
           map rd_notify_at_ts batch =
             (if start - hours 24 \<le> utcnow 0 then [] else [start - hours 24])
             @ (if start - hours 3 \<le> utcnow 1 then [] else [start - hours 3])
             @ (if start - minutes 30 \<le> utcnow 2 then [] else [start - minutes 30])"
proof -
  let ?token = "case rows of [] \<Rightarrow> None | token # _ \<Rightarrow> token"
  let ?batch = "reminders_to_insert utcnow event ?token 0 (reminder_times start)"
  have c: "create_reminders fromisoformat utcnow users upsert_ok event = Inr ?batch"
    using assms by (simp add: create_reminders_def)
  have "map rd_notify_at_ts ?batch =
      (if start - hours 24 \<le> utcnow 0 then [] else [start - hours 24])
      @ (if start - hours 3 \<le> utcnow 1 then [] else [start - hours 3])
      @ (if start - minutes 30 \<le> utcnow 2 then [] else [start - minutes 30])"
    unfolding reminder_times_def by (rule reminders_to_insert_instants)
  with c show ?thesis by blast
qed

text \<open>
  C3, as the program has it, for an event whose start parses to a date-time without
  offset and is no earlier than 24 hours after \<open>datetime.min\<close>, the store answering the
  query for the user and taking the upsert. The batch handed to the upsert holds, of the
  three instants 24 hours, 3 hours and 30 minutes before the start and in this order,
  those that are later than the reading of the clock in their round of the loop. With
  every reading less than 30 minutes after \<open>now\<close>, an event that starts 25 hours after
  \<open>now\<close> gets all three reminders, and an event that starts 1 hour after \<open>now\<close> gets
  exactly one, the reminder 30 minutes before the start.
\<close>

theorem create_reminders_schedule:
  assumes "fromisoformat (replace_Z (ev_start_ts event)) = Naive start"
    and "hours 24 \<le> start" and "users = Some rows" and "upsert_ok"
  shows "\<exists>batch. create_reminders fromisoformat utcnow users upsert_ok event = Inr batch \<and>
           map rd_notify_at_ts batch =
             (if start - hours 24 \<le> utcnow 0 then [] else [start - hours 24])
             @ (if start - hours 3 \<le> utcnow 1 then [] else [start - hours 3])
             @ (if start - minutes 30 \<le> utcnow 2 then [] else [start - minutes 30]) \<and>
           ((\<forall>k. now \<le> utcnow k \<and> utcnow k < now + minutes 30) \<longrightarrow>
              (start = now + hours 25 \<longrightarrow>
                 map rd_notify_at_ts batch
                   = [start - hours 24, start - hours 3, start - minutes 30]) \<and>
              (start = now + hours 1 \<longrightarrow>
                 map rd_notify_at_ts batch = [start - minutes 30]))"
proof -
  from create_reminders_instants [where fromisoformat = fromisoformat and utcnow = utcnow, OF assms]
  obtain batch where b: "create_reminders fromisoformat utcnow users upsert_ok event = Inr batch"
    and m: "map rd_notify_at_ts batch =
             (if start - hours 24 \<le> utcnow 0 then [] else [start - hours 24])
             @ (if start - hours 3 \<le> utcnow 1 then [] else [start - hours 3])
             @ (if start - minutes 30 \<le> utcnow 2 then [] else [start - minutes 30])"
    by blast
  have far: "map rd_notify_at_ts batch = [start - hours 24, start - hours 3, start - minutes 30]"
    if r: "\<forall>k. now \<le> utcnow k \<and> utcnow k < now + minutes 30" and s: "start = now + hours 25"
  proof -
    from r have "utcnow 0 < now + minutes 30" "utcnow 1 < now + minutes 30"
      "utcnow 2 < now + minutes 30" by blast+
    then show ?thesis unfolding m s by (simp add: hours_def minutes_def)
  qed
  have near: "map rd_notify_at_ts batch = [start - minutes 30]"
    if r: "\<forall>k. now \<le> utcnow k \<and> utcnow k < now + minutes 30" and s: "start = now + hours 1"
  proof -
    from r have "now \<le> utcnow 0" "now \<le> utcnow 1" "utcnow 2 < now + minutes 30" by blast+
    then show ?thesis unfolding m s by (simp add: hours_def minutes_def)
  qed
  show ?thesis
  proof (intro exI [of _ batch] conjI impI)
    show "create_reminders fromisoformat utcnow users upsert_ok event = Inr batch" by (rule b)
    show "map rd_notify_at_ts batch =
            (if start - hours 24 \<le> utcnow 0 then [] else [start - hours 24])
            @ (if start - hours 3 \<le> utcnow 1 then [] else [start - hours 3])
            @ (if start - minutes 30 \<le> utcnow 2 then [] else [start - minutes 30])" by (rule m)
  next
    assume "\<forall>k. now \<le> utcnow k \<and> utcnow k < now + minutes 30" "start = now + hours 25"
    then show "map rd_notify_at_ts batch = [start - hours 24, start - hours 3, start - minutes 30]"
      by (rule far)
  next
    assume "\<forall>k. now \<le> utcnow k \<and> utcnow k < now + minutes 30" "start = now + hours 1"
    then show "map rd_notify_at_ts batch = [start - minutes 30]"
      by (rule near)
  qed
qed

theorem create_reminders_schedule_witness:
  "fromisoformat1 (replace_Z (ev_start_ts event1)) = Naive start1 \<and> hours 24 \<le> start1 \<and>
   map_sum id (map rd_notify_at_ts)
     (create_reminders fromisoformat1 (\<lambda>k. start1 - hours 25) (Some [Some ''token'']) True event1)
   = Inr [start1 - hours 24, start1 - hours 3, start1 - minutes 30]"
proof -
  have h1: "fromisoformat1 (replace_Z (ev_start_ts event1)) = Naive start1"
    by (simp add: fromisoformat1_def replace_Z_def event1_def)
  have h2: "hours 24 \<le> start1" by (simp add: hours_def start1_def)
  have h3: "Some [Some ''token''] = Some [Some ''token'']" by simp
  from create_reminders_schedule [where fromisoformat = fromisoformat1
      and utcnow = "\<lambda>k. start1 - hours 25" and now = "start1 - hours 25", OF h1 h2 h3 TrueI]
  obtain batch where
    b: "create_reminders fromisoformat1 (\<lambda>k. start1 - hours 25) (Some [Some ''token'']) True event1
        = Inr batch"
    and m: "start1 = start1 - hours 25 + hours 25 \<longrightarrow>
            map rd_notify_at_ts batch = [start1 - hours 24, start1 - hours 3, start1 - minutes 30]"
    by (auto simp: minutes_def)
  from m have "map rd_notify_at_ts batch = [start1 - hours 24, start1 - hours 3, start1 - minutes 30]"
    by simp
  with b h1 h2 show ?thesis by simp
qed

text \<open>
  C3 as stated fails on an event that starts in 1 hour: the instant 30 minutes before the
  start is still to come, so one reminder is handed to the store, not none.
\<close>

theorem one_hour_event_counterexample:
  "map_sum id (map rd_notify_at_ts)
     (create_reminders fromisoformat1 (\<lambda>k. start1 - hours 1) (Some [Some ''token'']) True event1)
   = Inr [start1 - minutes 30]"
  by (simp add: create_reminders_def fromisoformat1_def replace_Z_def event1_def
      reminder_times_def hours_def minutes_def start1_def)

section \<open>Facts about the coordinator\<close>

lemma attempt_marks:
  "case fst (attempt ord env email st) of
     Inr u \<Rightarrow> mark_calls (snd (attempt ord env email st))
               = mark_calls st @ [(email_id email, True)]
   | Inl e \<Rightarrow> snd (attempt ord env email st) = st"
  by (simp add: attempt_def insert_event_def mark_email_processed_def Let_def
      split: option.splits)

lemma attempt_raises:
  assumes "attempt ord env email st = (Inl e, st')"
  shows "st' = st"
  using attempt_marks [of ord env email st] by (simp add: assms)

lemma attempt_returns:
  assumes "attempt ord env email st = (Inr u, st')"
  shows "mark_calls st' = mark_calls st @ [(email_id email, True)]"
  using attempt_marks [of ord env email st] by (simp add: assms)

lemma range_3: "[0..<3] = [0, 1, 2::nat]"
  by (simp add: upt_rec)

lemma range_max_retries: "[0..<max_retries] = [0, 1, 2]"
  by (simp add: max_retries_def range_3)

lemma process_email_marks:
  "mark_calls (snd (process_email ord env email st)) =
     mark_calls st @ [(email_id email,
                       case fst (process_email ord env email st) of
                         Inr u \<Rightarrow> True | Inl e \<Rightarrow> False)]"
proof -
  obtain r0 s0 where a0: "attempt ord (env 0) email st = (r0, s0)"
    by (cases "attempt ord (env 0) email st")
  show ?thesis
  proof (cases r0)
    case (Inr u)
    then show ?thesis
      using attempt_returns [of ord "env 0" email st u s0] a0
      by (simp add: process_email_def range_max_retries)
  next
    case (Inl e0)
    with a0 have s0: "s0 = st" by (simp add: attempt_raises)
    let ?st1 = "st\<lparr>sleeps := sleeps st @ [1]\<rparr>"
    obtain r1 s1 where a1: "attempt ord (env 1) email ?st1 = (r1, s1)"
      by (cases "attempt ord (env 1) email ?st1")
    show ?thesis
    proof (cases r1)
      case (Inr u)
      then show ?thesis
        using attempt_returns [of ord "env 1" email ?st1 u s1] a0 a1 Inl s0
        by (simp add: process_email_def range_3 max_retries_def)
    next
      case i1: (Inl e1)
      with a1 have s1: "s1 = ?st1" by (simp add: attempt_raises)
      let ?st2 = "?st1\<lparr>sleeps := sleeps ?st1 @ [2]\<rparr>"
      obtain r2 s2 where a2: "attempt ord (env 2) email ?st2 = (r2, s2)"
        by (cases "attempt ord (env 2) email ?st2")
      show ?thesis
      proof (cases r2)
        case (Inr u)
        then show ?thesis
          using attempt_returns [of ord "env 2" email ?st2 u s2] a0 a1 a2 Inl i1 s0 s1
          by (simp add: process_email_def range_3 max_retries_def)
      next
        case i2: (Inl e2)
        with a2 have s2: "s2 = ?st2" by (simp add: attempt_raises)
        show ?thesis
          using a0 a1 a2 Inl i1 i2 s0 s1 s2
          by (simp add: process_email_def range_3 max_retries_def
              mark_email_processed_def)
      qed
    qed
  qed
qed

text \<open>
  C5, as the program has it. In one round of the loop over a batch, a message whose
  processing returns (an event exists already, a parsed event was stored, or a review
  placeholder was stored) is marked processed exactly once. A message whose last attempt
  raises is marked by the handler of the last attempt, the exception is raised again,
  caught by the loop over the batch and not raised further, and the handler of the loop
  marks the message once more. In both cases the loop goes on with the next message.
\<close>

theorem batch_marks_every_message:
  "mark_calls (process_in_batch ord (email, env, handler_ok) st) =
     mark_calls st @
       (case fst (process_email ord env email st) of
          Inr u \<Rightarrow> [(email_id email, True)]
        | Inl e \<Rightarrow> [(email_id email, False), (email_id email, False)]) \<and>
   process_batch ord ((email, env, handler_ok) # rest) st =
     process_batch ord rest (process_in_batch ord (email, env, handler_ok) st)"
proof -
  obtain r st' where p: "process_email ord env email st = (r, st')"
    by (cases "process_email ord env email st")
  have m: "mark_calls st' =
             mark_calls st @ [(email_id email, case r of Inr u \<Rightarrow> True | Inl e \<Rightarrow> False)]"
    using process_email_marks [of ord env email st] by (simp add: p)
  have "mark_calls (process_in_batch ord (email, env, handler_ok) st) =
          mark_calls st @
            (case r of Inr u \<Rightarrow> [(email_id email, True)]
             | Inl e \<Rightarrow> [(email_id email, False), (email_id email, False)])"
    using m by (cases r) (simp_all add: process_in_batch_def p mark_email_processed_def)
  then show ?thesis by (simp add: p process_batch_def)
qed

text \<open>
  C5 as stated fails on a message whose three attempts all find the store out of reach:
  the message is marked processed twice, and the second message of the batch is still
  processed.
\<close>

theorem marked_twice_counterexample:
  "mark_calls (process_batch remdups
                 [(email1, (\<lambda>n. store_down), True), (email2, (\<lambda>n. store_down), True)] state0)
   = [(''m1'', False), (''m1'', False), (''m2'', False), (''m2'', False)]"
  by (simp add: process_batch_def process_in_batch_def process_email_def range_3
      max_retries_def attempt_def store_down_def mark_email_processed_def state0_def
      email1_def email2_def)

lemma regex_low_confidence:
  "snd (parse remdups (raw_body email2) (subject email2)) < 0.7"
  by code_simp

text \<open>
  C9. When the store answers the first attempt (no event exists yet for the message, and
  the insert is taken), the regex parse is below 0.7 and the reply of the generative
  model is no valid JSON, the generative parse is absent and raises nothing; the
  coordinator stores one event, with the status \<open>needs_review\<close>, calls the marking of the
  message once, and returns without an exception.
\<close>

theorem invalid_json_goes_to_review:
  assumes "lookup_ok (env 0)"
    and "\<not> list_ex (\<lambda>row. ev_source_msg_id row = email_id email) (events st)"
    and "snd (parse ord (raw_body email) (subject email)) < 0.7"
    and "llm_reply (env 0) = InvalidJson"
    and "new_event_id (env 0) = Some i"
  shows "parse_with_ollama (llm_reply (env 0)) = None \<and>
         fst (process_email ord env email st) = Inr () \<and>
         events (snd (process_email ord env email st)) =
           events st @ [event_data (review_clock (env 0)) email None ''needs_review'' i] \<and>
         ev_status (event_data (review_clock (env 0)) email None ''needs_review'' i)
           = ''needs_review'' \<and>
         mark_calls (snd (process_email ord env email st)) =
           mark_calls st @ [(email_id email, True)] \<and>
         processed (snd (process_email ord env email st)) =
           (if mark_ok (env 0) then insert (email_id email) (processed st) else processed st)"
proof -
  have n: "parse_with_ollama (llm_reply (env 0)) = None"
    using assms(4) by (simp add: parse_with_ollama_def)
  have a: "attempt ord (env 0) email st =
             (Inr (), mark_email_processed (mark_ok (env 0)) (email_id email) True
                (st\<lparr>events := events st
                        @ [event_data (review_clock (env 0)) email None ''needs_review'' i]\<rparr>))"
    using assms n by (simp add: attempt_def insert_event_def Let_def)
  have p: "process_email ord env email st =
             (Inr (), mark_email_processed (mark_ok (env 0)) (email_id email) True
                (st\<lparr>events := events st
                        @ [event_data (review_clock (env 0)) email None ''needs_review'' i]\<rparr>))"
    by (simp add: process_email_def range_max_retries a)
  show ?thesis
    unfolding p using n by (simp add: mark_email_processed_def event_data_def)
qed

theorem invalid_json_goes_to_review_witness:
  "lookup_ok no_json \<and> llm_reply no_json = InvalidJson \<and>
   snd (parse remdups (raw_body email2) (subject email2)) < 0.7 \<and>
   fst (process_email remdups (\<lambda>n. no_json) email2 state0) = Inr () \<and>
   map ev_status (events (snd (process_email remdups (\<lambda>n. no_json) email2 state0)))
     = [''needs_review''] \<and>
   mark_calls (snd (process_email remdups (\<lambda>n. no_json) email2 state0)) = [(''m2'', True)]"
proof -
  have h1: "lookup_ok no_json" by (simp add: no_json_def)
  have h2: "\<not> list_ex (\<lambda>row. ev_source_msg_id row = email_id email2) (events state0)"
    by (simp add: state0_def)
  have h4: "llm_reply no_json = InvalidJson" by (simp add: no_json_def)
  have h5: "new_event_id no_json = Some ''e2''" by (simp add: no_json_def)
  note t = invalid_json_goes_to_review
    [where env = "\<lambda>n. no_json" and email = email2 and st = state0 and ord = remdups,
     OF h1 h2 regex_low_confidence h4 h5]
  have e: "email_id email2 = ''m2''" by (simp add: email2_def)
  from t have "fst (process_email remdups (\<lambda>n. no_json) email2 state0) = Inr ()"
    and "map ev_status (events (snd (process_email remdups (\<lambda>n. no_json) email2 state0)))
           = [''needs_review'']"
    and "mark_calls (snd (process_email remdups (\<lambda>n. no_json) email2 state0)) = [(''m2'', True)]"
    by (simp_all add: state0_def e)
  with h1 h4 regex_low_confidence show ?thesis by blast
qed

section \<open>Facts about the pattern extractor\<close>

lemma accumulate_score:
  "snd (accumulate ord body subj) =
     (if clean_subject subj \<noteq> [] then 0.2 else 0)
     + (if extract_dates ord body \<noteq> [] then 0.4 else 0)
     + (case extract_location body of Some l \<Rightarrow> if l \<noteq> [] then 0.2 else 0 | None \<Rightarrow> 0)
     + (case extract_prep_items body of Some xs \<Rightarrow> if xs \<noteq> [] then 0.2 else 0 | None \<Rightarrow> 0)"
  by (simp add: accumulate_def add_title_def add_dates_def add_location_def
      add_prep_items_def split: list.splits option.splits)

lemma accumulate_title:
  "pd_title (fst (accumulate ord body subj)) =
     (if clean_subject subj \<noteq> [] then Some (clean_subject subj) else None)"
  by (simp add: accumulate_def add_title_def add_dates_def add_location_def
      add_prep_items_def no_data_def split: list.splits option.splits)

lemma accumulate_start:
  "pd_start_ts (fst (accumulate ord body subj)) =
     (case extract_dates ord body of [] \<Rightarrow> None | d0 # ds \<Rightarrow> Some d0)"
  by (simp add: accumulate_def add_title_def add_dates_def add_location_def
      add_prep_items_def no_data_def split: list.splits option.splits)

lemma accumulate_end:
  "pd_end_ts (fst (accumulate ord body subj)) =
     (case extract_dates ord body of
        [] \<Rightarrow> None
      | d0 # ds \<Rightarrow> Some (case ds of d1 # _ \<Rightarrow> d1 | [] \<Rightarrow> d0))"
  by (simp add: accumulate_def add_title_def add_dates_def add_location_def
      add_prep_items_def no_data_def split: list.splits option.splits)

lemma new_ParsedEvent_None:
  "new_ParsedEvent d c = None \<longleftrightarrow> pd_title d = None \<or> pd_start_ts d = None \<or> pd_end_ts d = None"
  by (simp add: new_ParsedEvent_def split: option.splits)

lemma new_ParsedEvent_Some:
  assumes "new_ParsedEvent d c = Some ev"
  shows "pd_start_ts d = Some (start_ts ev) \<and> pd_end_ts d = Some (end_ts ev)
         \<and> confidence ev = c"
  using assms by (auto simp: new_ParsedEvent_def split: option.splits)

lemma candidate_iff:
  "fst (parse ord body subj) \<noteq> None \<longleftrightarrow>
     0.4 \<le> snd (accumulate ord body subj) \<and> clean_subject subj \<noteq> []
     \<and> extract_dates ord body \<noteq> []"
proof -
  have n: "new_ParsedEvent (fst (accumulate ord body subj)) c = None \<longleftrightarrow>
             clean_subject subj = [] \<or> extract_dates ord body = []" for c
    by (simp add: new_ParsedEvent_None accumulate_title accumulate_start accumulate_end
        split: list.splits)
  show ?thesis
  proof (cases "new_ParsedEvent (fst (accumulate ord body subj)) (snd (accumulate ord body subj))")
    case None
    then show ?thesis using n by (auto simp: parse_def Let_def)
  next
    case (Some ev)
    then show ?thesis
      using n [of "snd (accumulate ord body subj)"] by (auto simp: parse_def Let_def)
  qed
qed

text \<open>
  C4, as the program has it. The accumulated confidence is the sum of the four weights.
  A candidate is returned if and only if the accumulated confidence is at least 0.4 and
  both a title and a date were found, the two fields a candidate cannot be built without.
  When no candidate is returned, the returned confidence is the accumulated score if
  that is below 0.4, and 0 if the candidate could not be built.
\<close>

theorem parse_candidate_iff:
  "snd (accumulate ord body subj) =
     (if clean_subject subj \<noteq> [] then 0.2 else 0)
     + (if extract_dates ord body \<noteq> [] then 0.4 else 0)
     + (case extract_location body of Some l \<Rightarrow> if l \<noteq> [] then 0.2 else 0 | None \<Rightarrow> 0)
     + (case extract_prep_items body of Some xs \<Rightarrow> if xs \<noteq> [] then 0.2 else 0 | None \<Rightarrow> 0) \<and>
   (fst (parse ord body subj) \<noteq> None) =
     (0.4 \<le> snd (accumulate ord body subj) \<and> clean_subject subj \<noteq> []
      \<and> extract_dates ord body \<noteq> []) \<and>
   snd (parse ord body subj) =
     (if snd (accumulate ord body subj) < 0.4 then snd (accumulate ord body subj)
      else if fst (parse ord body subj) = None then 0
      else snd (accumulate ord body subj))"
proof -
  have "snd (parse ord body subj) =
     (if snd (accumulate ord body subj) < 0.4 then snd (accumulate ord body subj)
      else if fst (parse ord body subj) = None then 0
      else snd (accumulate ord body subj))"
    by (simp add: parse_def Let_def not_less split: option.splits)
  then show ?thesis
    using accumulate_score [of ord body subj] candidate_iff [of ord body subj] by blast
qed

lemma body4_title: "clean_subject ''a'' = ''a''"
  by code_simp

lemma body4_dates: "scan_dates body4 = []"
  by code_simp

lemma body4_location: "extract_location body4 = Some ''x''"
  by code_simp

lemma body4_prep_items: "extract_prep_items body4 = Some [''y'']"
  by code_simp

text \<open>
  C4 as stated fails on a message with a title, a location and preparation items and no
  date: the accumulated confidence is 0.6, no candidate is returned, and the confidence
  returned is 0.
\<close>

theorem no_date_counterexample:
  "snd (accumulate remdups body4 ''a'') = 0.6 \<and> parse remdups body4 ''a'' = (None, 0)"
  by (simp add: parse_def accumulate_def extract_dates_def body4_title body4_dates
      body4_location body4_prep_items add_title_def add_dates_def add_location_def
      add_prep_items_def new_ParsedEvent_def no_data_def)

lemma parse_dates:
  assumes "fst (parse ord body subj) = Some ev"
  shows "\<exists>d0 ds. extract_dates ord body = d0 # ds \<and> start_ts ev = d0
           \<and> end_ts ev = (case ds of d1 # _ \<Rightarrow> d1 | [] \<Rightarrow> d0)"
proof -
  from assms have "new_ParsedEvent (fst (accumulate ord body subj))
                     (snd (accumulate ord body subj)) = Some ev"
    by (auto simp: parse_def Let_def split: if_splits option.splits)
  from new_ParsedEvent_Some [OF this]
  have "pd_start_ts (fst (accumulate ord body subj)) = Some (start_ts ev)"
    and "pd_end_ts (fst (accumulate ord body subj)) = Some (end_ts ev)" by simp_all
  then show ?thesis
    by (auto simp: accumulate_start accumulate_end split: list.splits)
qed

text \<open>
  What holds of the two dates of a candidate whatever the order in which the set of the
  dates is listed: its start is one of the dates found and its end is one of them too;
  they differ when two or more distinct dates were found, and the end equals the start
  when exactly one was.
\<close>

lemma dates_start_end:
  assumes "lists_set ord (scan_dates body)"
    and "fst (parse ord body subj) = Some ev"
  shows "start_ts ev \<in> set (scan_dates body) \<and> end_ts ev \<in> set (scan_dates body) \<and>
         (start_ts ev = end_ts ev) = (card (set (scan_dates body)) = 1)"
proof -
  from parse_dates [OF assms(2)] obtain d0 ds where
    e: "extract_dates ord body = d0 # ds" and s: "start_ts ev = d0"
    and n: "end_ts ev = (case ds of d1 # _ \<Rightarrow> d1 | [] \<Rightarrow> d0)" by blast
  from assms(1) e have d: "distinct (d0 # ds)" and m: "set (scan_dates body) = set (d0 # ds)"
    by (simp_all add: lists_set_def extract_dates_def)
  have c: "card (set (scan_dates body)) = Suc (length ds)"
    unfolding m using d by (simp add: distinct_card)
  show ?thesis
  proof (cases ds)
    case Nil
    then show ?thesis using s n m c by simp
  next
    case (Cons d1 rest)
    then show ?thesis using s n m c d by auto
  qed
qed

lemma body6_dates: "scan_dates body6 = [''2024-03-15'', ''2024-03-16'']"
  by code_simp

lemma trip_title: "clean_subject ''Trip'' = ''Trip''"
  by code_simp

lemma body6_location: "extract_location body6 = None"
  by code_simp

lemma body6_prep_items: "extract_prep_items body6 = None"
  by code_simp

lemma parse_body6:
  assumes "ord (scan_dates body6) = [d0, d1]"
  shows "parse ord body6 ''Trip'' =
           (Some \<lparr>title = PStr ''Trip'', start_ts = d0, end_ts = d1, location = PNone,
                  prep_items = PNone, confidence = 0.6, child_id = None\<rparr>, 0.6)"
  using assms
  by (simp add: parse_def accumulate_def extract_dates_def trip_title
      body6_location body6_prep_items add_title_def add_dates_def add_location_def
      add_prep_items_def new_ParsedEvent_def no_data_def Let_def)

lemma dates_start_end_example:
  "lists_set remdups (scan_dates body6) \<and>
   map_option start_ts (fst (parse remdups body6 ''Trip'')) = Some ''2024-03-15'' \<and>
   map_option end_ts (fst (parse remdups body6 ''Trip'')) = Some ''2024-03-16'' \<and>
   card (set (scan_dates body6)) \<noteq> 1"
proof -
  have h1: "lists_set remdups (scan_dates body6)" by (simp add: lists_set_def)
  have p: "parse remdups body6 ''Trip'' =
             (Some \<lparr>title = PStr ''Trip'', start_ts = ''2024-03-15'', end_ts = ''2024-03-16'',
                    location = PNone, prep_items = PNone, confidence = 0.6,
                    child_id = None\<rparr>, 0.6)"
    by (rule parse_body6 [where ord = remdups]) (simp add: body6_dates)
  have h2: "fst (parse remdups body6 ''Trip'') =
              Some \<lparr>title = PStr ''Trip'', start_ts = ''2024-03-15'', end_ts = ''2024-03-16'',
                    location = PNone, prep_items = PNone, confidence = 0.6, child_id = None\<rparr>"
    by (simp add: p)
  from dates_start_end [OF h1 h2] have "card (set (scan_dates body6)) \<noteq> 1" by simp
  with h1 show ?thesis by (simp add: p)
qed

text \<open>
  C6 fails on the program. The dates found are put into a set to remove the duplicates,
  and the start and the end are the first two members of the listing of that set, which
  follows the hashes of the strings and not the order of the scan. For the body
  \<open>2024-03-15 to 2024-03-16\<close> and a listing that has the date scanned last first, that
  date becomes the start, and the date scanned first becomes the end.
\<close>

theorem set_order_counterexample:
  "scan_dates body6 = [''2024-03-15'', ''2024-03-16''] \<and>
   lists_set backwards (scan_dates body6) \<and>
   map_option start_ts (fst (parse backwards body6 ''Trip'')) = Some ''2024-03-16'' \<and>
   map_option end_ts (fst (parse backwards body6 ''Trip'')) = Some ''2024-03-15''"
proof -
  have b: "backwards (scan_dates body6) = [''2024-03-16'', ''2024-03-15'']"
    by (simp add: body6_dates backwards_def)
  have "lists_set backwards (scan_dates body6)"
    by (simp add: lists_set_def backwards_def)
  then show ?thesis
    by (simp add: parse_body6 [where ord = backwards, OF b] body6_dates)
qed

lemma soccer_title: "clean_subject ''Re: Soccer Practice Tomorrow'' = ''Soccer Practice Tomorrow''"
  by code_simp

lemma soccer_dates: "scan_dates body8 = [''2024-03-15'']"
  by code_simp

lemma soccer_location: "extract_location body8 = Some ''Community Field''"
  by code_simp

lemma soccer_prep_items: "extract_prep_items body8 = Some [''water'', ''cleats'']"
  by code_simp

lemma lists_singleton:
  assumes "lists_set ord [d]"
  shows "ord [d] = [d]"
proof -
  from assms have d: "distinct (ord [d])" and s: "set (ord [d]) = {d}"
    by (simp_all add: lists_set_def)
  from s obtain x xs where c: "ord [d] = x # xs" by (cases "ord [d]") auto
  with s d have "x = d" "set xs \<subseteq> {d}" "d \<notin> set xs" by auto
  then have "xs = []" by (cases xs) auto
  with c \<open>x = d\<close> show ?thesis by simp
qed

lemma parse_soccer:
  assumes "lists_set ord (scan_dates body8)"
  shows "parse ord body8 ''Re: Soccer Practice Tomorrow'' =
           (Some \<lparr>title = PStr ''Soccer Practice Tomorrow'', start_ts = ''2024-03-15'',
                  end_ts = ''2024-03-15'', location = PStr ''Community Field'',
                  prep_items = PList [PStr ''water'', PStr ''cleats''], confidence = 1,
                  child_id = None\<rparr>, 1)"
proof -
  have "ord [''2024-03-15''] = [''2024-03-15'']"
    using assms unfolding soccer_dates by (rule lists_singleton)
  then show ?thesis
    by (simp add: parse_def accumulate_def extract_dates_def soccer_title soccer_dates
        soccer_location soccer_prep_items add_title_def add_dates_def add_location_def
        add_prep_items_def new_ParsedEvent_def no_data_def Let_def)
qed

text \<open>
  C8. The subject is \<open>Re: Soccer Practice Tomorrow\<close> and the body \<open>body8\<close> has three
  lines: \<open>Practice is on 2024-03-15\<close>, \<open>Location: Community Field\<close> and
  \<open>Please bring: water, cleats\<close>. Whatever the order in which a set is listed, the
  pattern extractor returns for it a candidate with the title
  \<open>Soccer Practice Tomorrow\<close>, the start and the end \<open>2024-03-15\<close>, the location
  \<open>Community Field\<close> and the preparation items \<open>water\<close> and \<open>cleats\<close>, with a confidence
  of at least 0.4.
\<close>

theorem soccer_round_trip:
  assumes "lists_set ord (scan_dates body8)"
  shows "fst (parse ord body8 ''Re: Soccer Practice Tomorrow'') =
           Some \<lparr>title = PStr ''Soccer Practice Tomorrow'', start_ts = ''2024-03-15'',
                 end_ts = ''2024-03-15'', location = PStr ''Community Field'',
                 prep_items = PList [PStr ''water'', PStr ''cleats''],
                 confidence = snd (parse ord body8 ''Re: Soccer Practice Tomorrow''),
                 child_id = None\<rparr> \<and>
         0.4 \<le> snd (parse ord body8 ''Re: Soccer Practice Tomorrow'')"
  by (simp add: parse_soccer [OF assms])

theorem soccer_round_trip_witness:
  "lists_set remdups (scan_dates body8) \<and>
   map_option title (fst (parse remdups body8 ''Re: Soccer Practice Tomorrow''))
     = Some (PStr ''Soccer Practice Tomorrow'') \<and>
   map_option start_ts (fst (parse remdups body8 ''Re: Soccer Practice Tomorrow''))
     = Some ''2024-03-15'' \<and>
   0.4 \<le> snd (parse remdups body8 ''Re: Soccer Practice Tomorrow'')"
proof -
  have h: "lists_set remdups (scan_dates body8)" by (simp add: lists_set_def)
  from soccer_round_trip [OF h] h show ?thesis by simp
qed

section \<open>The status of a stored event\<close>

text \<open>
  C1 fails on the program. The message \<open>email1\<close> is parsed by the pattern extractor with
  confidence 1, so the coordinator stores its event with the default status of
  \<open>_insert_event\<close>, which is \<open>upcoming\<close>: a status outside the four of the claim, and not
  the \<open>pending\<close> that the worker looks for, so the worker never fetches the event.
\<close>

theorem parsed_event_stored_as_upcoming:
  "fst (process_email remdups (\<lambda>n. store_up) email1 state0) = Inr () \<and>
   map ev_status (events (snd (process_email remdups (\<lambda>n. store_up) email1 state0)))
     = [''upcoming''] \<and>
   ''upcoming'' \<notin> {''pending'', ''synced'', ''failed'', ''needs_review''} \<and>
   get_pending_events True (events (snd (process_email remdups (\<lambda>n. store_up) email1 state0)))
     = Inr []"
proof -
  have h: "lists_set remdups (scan_dates body8)" by (simp add: lists_set_def)
  have r: "raw_body email1 = body8" "subject email1 = ''Re: Soccer Practice Tomorrow''"
    by (simp_all add: email1_def)
  have e: "events state0 = []" by (simp add: state0_def)
  have a: "attempt remdups store_up email1 state0 =
             (Inr (), mark_email_processed True (email_id email1) True
                (state0\<lparr>events :=
                   [event_data (review_clock store_up) email1
                      (Some \<lparr>title = PStr ''Soccer Practice Tomorrow'', start_ts = ''2024-03-15'',
                             end_ts = ''2024-03-15'', location = PStr ''Community Field'',
                             prep_items = PList [PStr ''water'', PStr ''cleats''],
                             confidence = 1, child_id = None\<rparr>)
                      default_status ''e1'']\<rparr>))"
    unfolding attempt_def r
    by (simp add: parse_soccer [OF h] e insert_event_def find_child_id_def store_up_def)
  have p: "process_email remdups (\<lambda>n. store_up) email1 state0 =
             (Inr (), mark_email_processed True (email_id email1) True
                (state0\<lparr>events :=
                   [event_data (review_clock store_up) email1
                      (Some \<lparr>title = PStr ''Soccer Practice Tomorrow'', start_ts = ''2024-03-15'',
                             end_ts = ''2024-03-15'', location = PStr ''Community Field'',
                             prep_items = PList [PStr ''water'', PStr ''cleats''],
                             confidence = 1, child_id = None\<rparr>)
                      default_status ''e1'']\<rparr>))"
    by (simp add: process_email_def range_max_retries a)
  show ?thesis
    unfolding p
    by (simp add: mark_email_processed_def event_data_def default_status_def
        get_pending_events_def)
qed

end
